theory Spec2Isabelle
  imports Complex_Main "HOL-Library.Log_Nat"
begin

section \<open>Python values and the \<open>float()\<close> conversion\<close>

text \<open>
  The sensor values reach the decoders as Python objects: integers unpacked from the
  wireless payload on the live path, and whatever \<open>json.load\<close> returns on the
  offline path. A Python \<open>float\<close> is modelled as a \<open>real\<close>: the decoders then
  compute with exact arithmetic, and NaN and the infinities are not values of the model.
\<close>

datatype pyval =
    PNone
  | PBool bool
  | PInt int
  | PFloat real
  | PStr string
  | PList "pyval list"

datatype pyerr = ValueError | TypeError | OverflowError | IndexError | FileNotFoundError

text \<open>
  \<open>float(i)\<close> for an integer gives the double nearest to \<open>i\<close>, a tie going to the
  even significand. \<open>round_to_double i\<close> is the value of that double: \<open>i\<close> itself when
  \<open>i\<close> has at most 53 significant bits, and otherwise \<open>i\<close> rounded to 53 significant
  bits (\<open>bitlen\<close> is the bit length of a positive integer).
\<close>

definition round_to_double :: "int \<Rightarrow> int" where
  "round_to_double i =
     (let a = \<bar>i\<bar>; e = bitlen a - 53 in
      if e \<le> 0 then i
      else (let p = 2 ^ nat e; q = a div p; r = a mod p;
                q1 = (if 2 * r > p \<or> (2 * r = p \<and> odd q) then q + 1 else q)
            in sgn i * (q1 * p)))"

text \<open>
  \<open>float(val)\<close>. The parsing of a \<open>str\<close> belongs to the Python runtime and is a
  parameter \<open>sf\<close> of the model: \<open>sf s = None\<close> when \<open>float(s)\<close> raises ValueError,
  \<open>sf s = Some x\<close> when it returns \<open>x\<close>. An integer is rounded to the nearest
  double; when the rounded value reaches \<open>2^1024\<close> in magnitude it is beyond the largest
  double and \<open>float\<close> raises OverflowError. \<open>None\<close> and a list are rejected with
  TypeError.
\<close>

definition py_float :: "(string \<Rightarrow> real option) \<Rightarrow> pyval \<Rightarrow> pyerr + real" where
  "py_float sf val =
     (case val of
        PNone \<Rightarrow> Inl TypeError
      | PBool b \<Rightarrow> Inr (if b then 1 else 0)
      | PInt i \<Rightarrow> (let d = round_to_double i in
                   if \<bar>d\<bar> \<ge> 2 ^ 1024 then Inl OverflowError else Inr (real_of_int d))
      | PFloat x \<Rightarrow> Inr x
      | PStr s \<Rightarrow> (case sf s of None \<Rightarrow> Inl ValueError | Some x \<Rightarrow> Inr x)
      | PList xs \<Rightarrow> Inl TypeError)"

section \<open>Frame codec: \<open>transform_value\<close>\<close>

text \<open>
  The body shared by the three copies of \<open>transform_value\<close>, after \<open>val = float(val)\<close>
  has succeeded: the branch on the sensor class, the comparison with 32768 and the
  division by the scale constant.
\<close>

definition scale_value :: "real \<Rightarrow> bool \<Rightarrow> real" where
  "scale_value val is_accelerometer =
     (if is_accelerometer then
        (if val \<ge> 32768 then (val - 65536) / 4096.0 else val / 4096.0)
      else
        (if val \<ge> 32768 then (val - 65536) / 32.8 else val / 32.8))"

text \<open>
  \<open>LivePlotter.transform_value\<close> (live\_plotter.py): \<open>except (ValueError, TypeError)\<close>
  returns \<open>None\<close>; any other exception of \<open>float\<close> leaves the method (\<open>Inl\<close>).
\<close>

definition LivePlotter_transform_value ::
  "(string \<Rightarrow> real option) \<Rightarrow> pyval \<Rightarrow> bool \<Rightarrow> pyerr + real option" where
  "LivePlotter_transform_value sf val is_accelerometer =
     (case py_float sf val of
        Inr x \<Rightarrow> Inr (Some (scale_value x is_accelerometer))
      | Inl ValueError \<Rightarrow> Inr None
      | Inl TypeError \<Rightarrow> Inr None
      | Inl e \<Rightarrow> Inl e)"

text \<open>
  \<open>transform_value\<close> of plot\_from\_json.py: the bare \<open>except\<close> turns every exception
  into \<open>None\<close>, so the function is total.
\<close>

definition transform_value :: "(string \<Rightarrow> real option) \<Rightarrow> pyval \<Rightarrow> bool \<Rightarrow> real option" where
  "transform_value sf val is_accelerometer =
     (case py_float sf val of
        Inr x \<Rightarrow> Some (scale_value x is_accelerometer)
      | Inl e \<Rightarrow> None)"

text \<open>
  \<open>transform_value\<close> of advanced\_plotter.py: the same, with the accelerometer divisor
  written \<open>4096\<close>.
\<close>

definition advanced_transform_value ::
  "(string \<Rightarrow> real option) \<Rightarrow> pyval \<Rightarrow> bool \<Rightarrow> real option" where
  "advanced_transform_value sf val is_accelerometer =
     (case py_float sf val of
        Inr x \<Rightarrow>
          Some (if is_accelerometer then
                  (if x \<ge> 32768 then (x - 65536) / 4096 else x / 4096)
                else
                  (if x \<ge> 32768 then (x - 65536) / 32.8 else x / 32.8))
      | Inl e \<Rightarrow> None)"

text \<open>The signed reading of a raw 16-bit value, in the words of the specification.\<close>

definition signed_of_raw :: "int \<Rightarrow> int" where
  "signed_of_raw r = (if r \<ge> 32768 then r - 65536 else r)"

section \<open>Frame geometry: \<open>parse_frame_data\<close>\<close>

definition FINGER_NAMES :: "string list" where
  "FINGER_NAMES =
     [''IndexFinger'', ''MiddleFinger'', ''RingFinger'', ''LittleFinger'', ''Thumb'', ''Palm'']"

record finger_raw =
  acc_raw :: "pyval list"
  gyro_raw :: "pyval list"

text \<open>
  \<open>LivePlotter.parse_frame_data\<close>: \<open>None\<close> unless the frame has 36 entries; otherwise
  a dict with one entry per finger, in the order of \<open>FINGER_NAMES\<close> (a Python dict
  keeps insertion order, so the dict is an association list). The values stay raw.
\<close>

definition parse_frame_data :: "pyval list \<Rightarrow> (string \<times> finger_raw) list option" where
  "parse_frame_data data =
     (if length data \<noteq> 36 then None
      else Some (map (\<lambda>(i, finger).
                   let start_idx = i * 6 in
                   (finger,
                    \<lparr>acc_raw = [data ! start_idx, data ! (start_idx + 1), data ! (start_idx + 2)],
                     gyro_raw = [data ! (start_idx + 3), data ! (start_idx + 4),
                                 data ! (start_idx + 5)]\<rparr>))
                 (enumerate 0 FINGER_NAMES)))"

section \<open>Rolling display window: \<open>FingerWindow\<close>\<close>

text \<open>
  The four streams of a window are the keys \<open>'left_acc'\<close>, \<open>'left_gyro'\<close>,
  \<open>'right_acc'\<close>, \<open>'right_gyro'\<close> of the dicts \<open>data\<close> and \<open>total_frames\<close>.
\<close>

datatype stream_key = left_acc | left_gyro | right_acc | right_gyro

text \<open>\<open>f'{storage_key}_acc'\<close> with \<open>storage_key = 'left' if hand == "Left" else 'right'\<close>.\<close>

definition acc_key :: "string \<Rightarrow> stream_key" where
  "acc_key hand = (if hand = ''Left'' then left_acc else right_acc)"

definition gyro_key :: "string \<Rightarrow> stream_key" where
  "gyro_key hand = (if hand = ''Left'' then left_gyro else right_gyro)"

text \<open>
  The state of a \<open>FingerWindow\<close> that the windowing policy reads and writes. The figure,
  the axes and the line objects belong to the plotting backend and are left out.
\<close>

record finger_window =
  finger_name :: string
  max_frames :: nat
  total_frames :: "stream_key \<Rightarrow> nat"
  data :: "stream_key \<Rightarrow> real option list list"

text \<open>
  \<open>deque(maxlen=...).append(x)\<close>: the item is appended on the right, and when the
  deque then holds more than \<open>maxlen\<close> items the leftmost one is dropped.
\<close>

definition deque_append :: "nat \<Rightarrow> 'a list \<Rightarrow> 'a \<Rightarrow> 'a list" where
  "deque_append maxlen xs x =
     (let ys = xs @ [x] in if length ys > maxlen then tl ys else ys)"

definition data_maxlen :: nat where
  "data_maxlen = 500"

definition FingerWindow_init :: "string \<Rightarrow> finger_window" where
  "FingerWindow_init name =
     \<lparr>finger_name = name, max_frames = 200,
      total_frames = (\<lambda>k. 0), data = (\<lambda>k. [])\<rparr>"

text \<open>\<open>all(v is not None for v in xs)\<close>.\<close>

definition all_not_None :: "real option list \<Rightarrow> bool" where
  "all_not_None xs = list_all (\<lambda>v. v \<noteq> None) xs"

definition FingerWindow_add_data ::
  "finger_window \<Rightarrow> string \<Rightarrow> real option list \<Rightarrow> real option list \<Rightarrow> finger_window" where
  "FingerWindow_add_data w hand acc_data gyro_data =
     (let w1 = (if all_not_None acc_data then
                  w\<lparr>data := (data w)(acc_key hand :=
                               deque_append data_maxlen (data w (acc_key hand)) acc_data),
                    total_frames := (total_frames w)(acc_key hand :=
                               total_frames w (acc_key hand) + 1)\<rparr>
                else w)
      in (if all_not_None gyro_data then
            w1\<lparr>data := (data w1)(gyro_key hand :=
                          deque_append data_maxlen (data w1 (gyro_key hand)) gyro_data),
               total_frames := (total_frames w1)(gyro_key hand :=
                          total_frames w1 (gyro_key hand) + 1)\<rparr>
          else w1))"

text \<open>The slice \<open>xs[-n:]\<close> for \<open>n \<ge> 0\<close>: the last \<open>n\<close> items, and all of \<open>xs\<close> for \<open>n = 0\<close>.\<close>

definition py_last :: "nat \<Rightarrow> 'a list \<Rightarrow> 'a list" where
  "py_last n xs = (if n = 0 then xs else drop (length xs - n) xs)"

text \<open>
  What \<open>FingerWindow.update\<close> computes for one stream before it hands the data to the
  lines: nothing when the buffer is empty, otherwise the first and last frame numbers of
  the x axis, the frame numbers \<open>frames\<close> and the rows \<open>display_data\<close>. The four
  blocks of \<open>update\<close> are this computation at the four keys; the y-axis scaling that
  follows it does not change these values and is left out.
\<close>

record stream_view =
  start_frame :: nat
  end_frame :: nat
  frames :: "nat list"
  display_data :: "real option list list"

definition update_stream :: "finger_window \<Rightarrow> stream_key \<Rightarrow> stream_view option" where
  "update_stream w k =
     (if length (data w k) > 0 then
        (let arr = data w k; total = total_frames w k in
         if total > max_frames w then
           Some \<lparr>start_frame = total - max_frames w, end_frame = total,
                 frames = [total - max_frames w ..< total],
                 display_data = py_last (max_frames w) arr\<rparr>
         else
           Some \<lparr>start_frame = 0, end_frame = total,
                 frames = [0 ..< total],
                 display_data = arr\<rparr>)
      else None)"

definition FingerWindow_clear :: "finger_window \<Rightarrow> finger_window" where
  "FingerWindow_clear w = w\<lparr>data := (\<lambda>k. []), total_frames := (\<lambda>k. 0)\<rparr>"

text \<open>A run of \<open>add_data\<close> calls on one window, each with its hand and its two triples.\<close>

definition feed_window ::
  "finger_window \<Rightarrow> (string \<times> real option list \<times> real option list) list \<Rightarrow> finger_window" where
  "feed_window w samples =
     foldl (\<lambda>w (hand, acc_data, gyro_data). FingerWindow_add_data w hand acc_data gyro_data)
       w samples"

text \<open>The samples of a run that stream \<open>k\<close> accepts, in the order of the run.\<close>

fun accepted :: "stream_key \<Rightarrow> (string \<times> real option list \<times> real option list) list
                  \<Rightarrow> real option list list" where
  "accepted k [] = []"
| "accepted k ((hand, acc_data, gyro_data) # rest) =
     (if acc_key hand = k \<and> all_not_None acc_data then [acc_data] else []) @
     (if gyro_key hand = k \<and> all_not_None gyro_data then [gyro_data] else []) @
     accepted k rest"

section \<open>Live plotting: \<open>LivePlotter\<close>\<close>

text \<open>
  \<open>finger_windows\<close> is a dict with the six finger names as its keys, created in
  \<open>__init__\<close> and never extended: a function on the keys. \<open>_first_frame_logged\<close>
  is a dict used as a set of hands.
\<close>

record live_plotter =
  is_running :: bool
  finger_windows :: "string \<Rightarrow> finger_window"
  first_frame_logged :: "string set"

definition LivePlotter_init :: live_plotter where
  "LivePlotter_init =
     \<lparr>is_running = False, finger_windows = (\<lambda>finger. FingerWindow_init finger),
      first_frame_logged = {}\<rparr>"

text \<open>
  How a call of \<open>add_data\<close> ends: with an exception that leaves the method, or with a
  return; the flag tells whether \<open>_update_all_displays\<close> ran.
\<close>

datatype outcome = Raised pyerr | Returned bool

text \<open>\<open>v == 0\<close> for a Python value.\<close>

definition py_eq_zero :: "pyval \<Rightarrow> bool" where
  "py_eq_zero v =
     (case v of
        PInt i \<Rightarrow> i = 0
      | PFloat x \<Rightarrow> x = 0
      | PBool b \<Rightarrow> \<not> b
      | _ \<Rightarrow> False)"

text \<open>
  A list display \<open>[self.transform_value(x0, c), self.transform_value(x1, c), ...]\<close>:
  the calls run from left to right and the first exception ends the evaluation.
\<close>

fun transform_all ::
  "(string \<Rightarrow> real option) \<Rightarrow> pyval list \<Rightarrow> bool \<Rightarrow> pyerr + real option list" where
  "transform_all sf [] is_acc = Inr []"
| "transform_all sf (v # vs) is_acc =
     (case LivePlotter_transform_value sf v is_acc of
        Inl e \<Rightarrow> Inl e
      | Inr x \<Rightarrow> (case transform_all sf vs is_acc of
                    Inl e \<Rightarrow> Inl e
                  | Inr xs \<Rightarrow> Inr (x # xs)))"

text \<open>
  The loop \<open>for finger in FINGER_NAMES\<close> of \<open>add_data\<close>. An exception stops the loop;
  the windows updated before it stay updated.
\<close>

fun process_fingers ::
  "(string \<Rightarrow> real option) \<Rightarrow> (string \<Rightarrow> finger_window) \<Rightarrow> string
     \<Rightarrow> (string \<times> finger_raw) list \<Rightarrow> string list
     \<Rightarrow> (string \<Rightarrow> finger_window) \<times> pyerr option" where
  "process_fingers sf fws hand frame_data [] = (fws, None)"
| "process_fingers sf fws hand frame_data (finger # rest) =
     (case map_of frame_data finger of
        None \<Rightarrow> process_fingers sf fws hand frame_data rest
      | Some finger_raw \<Rightarrow>
          (case transform_all sf (acc_raw finger_raw) True of
             Inl e \<Rightarrow> (fws, Some e)
           | Inr acc_converted \<Rightarrow>
               (case transform_all sf (gyro_raw finger_raw) False of
                  Inl e \<Rightarrow> (fws, Some e)
                | Inr gyro_converted \<Rightarrow>
                    process_fingers sf
                      (if all_not_None acc_converted \<and> all_not_None gyro_converted then
                         fws(finger := FingerWindow_add_data (fws finger) hand
                                         acc_converted gyro_converted)
                       else fws)
                      hand frame_data rest)))"

text \<open>
  The block that logs the first frame of a hand. It marks the hand as logged, converts
  \<open>data[0]\<close> and \<open>data[1]\<close>, and formats both with \<open>:.6f\<close>, which raises TypeError
  on \<open>None\<close>.
\<close>

definition log_first_frame ::
  "(string \<Rightarrow> real option) \<Rightarrow> live_plotter \<Rightarrow> string \<Rightarrow> pyval list
     \<Rightarrow> live_plotter \<times> pyerr option" where
  "log_first_frame sf s hand frame =
     (if hand \<notin> first_frame_logged s then
        (let s1 = s\<lparr>first_frame_logged := insert hand (first_frame_logged s)\<rparr> in
         case LivePlotter_transform_value sf (frame ! 0) True of
           Inl e \<Rightarrow> (s1, Some e)
         | Inr idx_acc_x \<Rightarrow>
             (case LivePlotter_transform_value sf (frame ! 1) True of
                Inl e \<Rightarrow> (s1, Some e)
              | Inr idx_acc_y \<Rightarrow>
                  (if idx_acc_x = None \<or> idx_acc_y = None then (s1, Some TypeError)
                   else (s1, None))))
      else (s, None))"

text \<open>
  \<open>LivePlotter.add_data\<close>. Its parameter \<open>data\<close> is called \<open>frame\<close> here, since
  \<open>data\<close> names the buffers of a window. The three early returns come first, in the
  order of the source; the redraw test reads the two accelerometer buffers of the
  IndexFinger window.
\<close>

definition add_data ::
  "(string \<Rightarrow> real option) \<Rightarrow> live_plotter \<Rightarrow> string \<Rightarrow> pyval list
     \<Rightarrow> live_plotter \<times> outcome" where
  "add_data sf s hand frame =
     (if frame = [] then (s, Returned False)
      else if list_all py_eq_zero frame then (s, Returned False)
      else if length frame \<noteq> 36 then (s, Returned False)
      else
        (case log_first_frame sf s hand frame of
           (s1, Some e) \<Rightarrow> (s1, Raised e)
         | (s1, None) \<Rightarrow>
             (case parse_frame_data frame of
                None \<Rightarrow> (s1, Returned False)
              | Some frame_data \<Rightarrow>
                  (if frame_data = [] then (s1, Returned False)
                   else
                     (case process_fingers sf (finger_windows s1) hand frame_data FINGER_NAMES of
                        (fws, Some e) \<Rightarrow> (s1\<lparr>finger_windows := fws\<rparr>, Raised e)
                      | (fws, None) \<Rightarrow>
                          (let s2 = s1\<lparr>finger_windows := fws\<rparr> in
                           if is_running s2 then
                             (let total =
                                    length (data (finger_windows s2 ''IndexFinger'') left_acc) +
                                    length (data (finger_windows s2 ''IndexFinger'') right_acc)
                              in if total mod 10 = 0 then (s2, Returned True)
                                 else (s2, Returned False))
                           else (s2, Returned False)))))))"

definition start :: "live_plotter \<Rightarrow> live_plotter" where
  "start s =
     s\<lparr>is_running := True, first_frame_logged := {},
       finger_windows := (\<lambda>finger. FingerWindow_clear (finger_windows s finger))\<rparr>"

definition stop :: "live_plotter \<Rightarrow> live_plotter" where
  "stop s = s\<lparr>is_running := False\<rparr>"

definition clear :: "live_plotter \<Rightarrow> live_plotter" where
  "clear s =
     s\<lparr>first_frame_logged := {},
       finger_windows := (\<lambda>finger. FingerWindow_clear (finger_windows s finger))\<rparr>"

text \<open>A run of \<open>add_data\<close> calls for one hand, one call per frame.\<close>

definition add_frames ::
  "(string \<Rightarrow> real option) \<Rightarrow> live_plotter \<Rightarrow> string \<Rightarrow> pyval list list \<Rightarrow> live_plotter" where
  "add_frames sf s hand frames_in = foldl (\<lambda>s d. fst (add_data sf s hand d)) s frames_in"

text \<open>
  A frame as the wireless layer hands it to \<open>add_data\<close>: the data handler unpacks the
  payload as little-endian unsigned 16-bit integers and forwards it only when it has
  exactly 36 values.
\<close>

definition is_uint16 :: "pyval \<Rightarrow> bool" where
  "is_uint16 v = (case v of PInt r \<Rightarrow> 0 \<le> r \<and> r \<le> 65535 | _ \<Rightarrow> False)"

definition uint16_frame :: "pyval list \<Rightarrow> bool" where
  "uint16_frame frame \<longleftrightarrow> length frame = 36 \<and> list_all is_uint16 frame"

section \<open>Gesture store: \<open>DataProcessor.save_gesture\<close>\<close>

text \<open>
  A hand stream is the list of frames captured for one hand; a frame is a list of values.
\<close>

type_synonym hand_stream = "pyval list list"

record data_processor =
  session_name :: string
  user_name :: string
  gesture_count :: int
  base_folder :: string
  user_folder :: string
  session_folder :: string

text \<open>
  \<open>_sanitize_name\<close>: spaces become underscores, then only the characters for which
  \<open>str.isalnum\<close> holds, \<open>_\<close> and \<open>-\<close> are kept. \<open>str.isalnum\<close> follows the Unicode
  tables of the Python runtime and is the parameter \<open>isalnum\<close> of the model; a
  \<open>char\<close> stands for one character of the string.
\<close>

definition sanitize_name :: "(char \<Rightarrow> bool) \<Rightarrow> string \<Rightarrow> string" where
  "sanitize_name isalnum name =
     (let sanitized = map (\<lambda>c. if c = CHR '' '' then CHR ''_'' else c) name
      in filter (\<lambda>c. isalnum c \<or> c \<in> set [CHR ''_'', CHR ''-'']) sanitized)"

text \<open>
  What \<open>str.isalnum\<close> gives on the ASCII characters: true for the digits and the
  letters. It serves as the parameter when a name is evaluated.
\<close>

definition isalnum_ascii :: "char \<Rightarrow> bool" where
  "isalnum_ascii c =
     (let n = of_char c :: nat
      in (48 \<le> n \<and> n \<le> 57) \<or> (65 \<le> n \<and> n \<le> 90) \<or> (97 \<le> n \<and> n \<le> 122))"

text \<open>\<open>os.path.join\<close> of two components, on a POSIX system.\<close>

definition path_join :: "string \<Rightarrow> string \<Rightarrow> string" where
  "path_join a b =
     (if b \<noteq> [] \<and> hd b = CHR ''/'' then b
      else if a = [] \<or> last a = CHR ''/'' then a @ b
      else a @ ''/'' @ b)"

text \<open>
  The record that \<open>save_gesture\<close> writes, with the keys of the dict \<open>gesture_data\<close>
  as fields. \<open>json.dump\<close> followed by \<open>json.load\<close> gives back lists, integers, strings
  and \<open>None\<close> as they were, so a stored file is modelled by the record itself and the
  file system by a map from paths to records.
\<close>

record device_name =
  leftHandDevice :: string
  rightHandDevice :: string

record gesture_recording =
  leftHandDataList :: "hand_stream list"
  rightHandDataList :: "hand_stream list"

record gesture_data =
  gd_session_name :: string
  gd_user_name :: string
  gd_user_id :: string
  gd_timestamp :: string
  gd_gesture_number :: int
  gd_custom_name :: "string option"
  gd_device_name :: device_name
  gd_gesture_recording :: gesture_recording

type_synonym file_system = "string \<rightharpoonup> gesture_data"

text \<open>
  \<open>save_gesture\<close>. The two readings of the clock, \<open>datetime.now().strftime(...)\<close> and
  \<open>datetime.now().isoformat()\<close>, are the parameters \<open>timestamp\<close> and \<open>iso_now\<close>;
  \<open>isalnum\<close> is passed on to \<open>sanitize_name\<close>. A
  \<open>custom_name\<close> that is \<open>None\<close> or empty is falsy. The result is the returned path,
  the processor with its counter advanced, and the file system with the new file.
\<close>

definition save_gesture ::
  "(char \<Rightarrow> bool) \<Rightarrow> data_processor \<Rightarrow> file_system \<Rightarrow> string \<Rightarrow> string \<Rightarrow> hand_stream \<Rightarrow> hand_stream
     \<Rightarrow> string \<Rightarrow> string \<Rightarrow> string option \<Rightarrow> string \<times> data_processor \<times> file_system" where
  "save_gesture isalnum dp fs timestamp iso_now left_data right_data left_device_id
       right_device_id
       custom_name =
     (let dp1 = dp\<lparr>gesture_count := gesture_count dp + 1\<rparr>;
          truthy = (custom_name \<noteq> None \<and> custom_name \<noteq> Some []);
          filename = (case custom_name of
                        Some name \<Rightarrow>
                          (if name \<noteq> [] then sanitize_name isalnum name @ ''_'' @ timestamp @ ''.json''
                           else ''gesture_'' @ timestamp @ ''.json'')
                      | None \<Rightarrow> ''gesture_'' @ timestamp @ ''.json'');
          filepath = path_join (session_folder dp1) filename;
          gesture_data =
            \<lparr>gd_session_name = session_name dp1,
             gd_user_name = user_name dp1,
             gd_user_id = sanitize_name isalnum (user_name dp1),
             gd_timestamp = iso_now,
             gd_gesture_number = gesture_count dp1,
             gd_custom_name = (if truthy then custom_name else None),
             gd_device_name =
               \<lparr>leftHandDevice = left_device_id, rightHandDevice = right_device_id\<rparr>,
             gd_gesture_recording =
               \<lparr>leftHandDataList = [left_data], rightHandDataList = [right_data]\<rparr>\<rparr>
      in (filepath, dp1, fs(filepath \<mapsto> gesture_data)))"

section \<open>Series loader: \<open>load_gesture_data\<close> and \<open>convert_frame_data\<close>\<close>

record metadata =
  md_session_name :: string
  md_user_name :: string
  md_gesture_name :: "string option"
  md_timestamp :: string
  md_device_name :: device_name

text \<open>
  \<open>load_gesture_data\<close>: \<open>open\<close> raises FileNotFoundError for a path with no file. Every
  key read with \<open>.get\<close> is present in a stored record, so the defaults play no part;
  \<open>[0]\<close> raises IndexError on an empty list.
\<close>

definition load_gesture_data ::
  "file_system \<Rightarrow> string \<Rightarrow> pyerr + (metadata \<times> hand_stream \<times> hand_stream)" where
  "load_gesture_data fs json_file =
     (case fs json_file of
        None \<Rightarrow> Inl FileNotFoundError
      | Some d \<Rightarrow>
          (let md = \<lparr>md_session_name = gd_session_name d,
                     md_user_name = gd_user_name d,
                     md_gesture_name = gd_custom_name d,
                     md_timestamp = gd_timestamp d,
                     md_device_name = gd_device_name d\<rparr>;
               rec = gd_gesture_recording d
           in case leftHandDataList rec of
                [] \<Rightarrow> Inl IndexError
              | left_hand_data # _ \<Rightarrow>
                  (case rightHandDataList rec of
                     [] \<Rightarrow> Inl IndexError
                   | right_hand_data # _ \<Rightarrow> Inr (md, left_hand_data, right_hand_data))))"

record finger_series =
  acc :: "real option list list"
  gyro :: "real option list list"

text \<open>
  The body of the loop \<open>for finger_idx, finger in enumerate(FINGER_NAMES)\<close> for one
  frame of 36 values: the two triples of the finger are appended to its series.
\<close>

definition convert_finger ::
  "(string \<Rightarrow> real option) \<Rightarrow> pyval list \<Rightarrow> (string \<Rightarrow> finger_series) \<Rightarrow> nat \<times> string
     \<Rightarrow> (string \<Rightarrow> finger_series)" where
  "convert_finger sf frame converted_data p =
     (case p of (finger_idx, finger) \<Rightarrow>
        (let start_idx = finger_idx * 6;
             acc_triple = [transform_value sf (frame ! start_idx) True,
                           transform_value sf (frame ! (start_idx + 1)) True,
                           transform_value sf (frame ! (start_idx + 2)) True];
             gyro_triple = [transform_value sf (frame ! (start_idx + 3)) False,
                            transform_value sf (frame ! (start_idx + 4)) False,
                            transform_value sf (frame ! (start_idx + 5)) False]
         in converted_data(finger :=
              \<lparr>acc = acc (converted_data finger) @ [acc_triple],
               gyro = gyro (converted_data finger) @ [gyro_triple]\<rparr>)))"

text \<open>
  \<open>convert_frame_data\<close>: the dict \<open>converted_data\<close> has the six finger names as keys
  and is a function on them. A frame whose length is not 36 is skipped.
\<close>

definition convert_frame_data ::
  "(string \<Rightarrow> real option) \<Rightarrow> hand_stream \<Rightarrow> (string \<Rightarrow> finger_series)" where
  "convert_frame_data sf raw_frames =
     foldl (\<lambda>converted_data frame.
              if length frame \<noteq> 36 then converted_data
              else foldl (convert_finger sf frame) converted_data (enumerate 0 FINGER_NAMES))
       (\<lambda>finger. \<lparr>acc = [], gyro = []\<rparr>) raw_frames"

text \<open>
  The converted accelerometer and gyroscope triples of sensor unit \<open>i\<close> of a frame: the
  values at offsets \<open>6 i\<close> to \<open>6 i + 2\<close> and \<open>6 i + 3\<close> to \<open>6 i + 5\<close>, each
  converted by \<open>transform_value\<close> with its class. They state what the series hold.
\<close>

definition acc_triple_of :: "(string \<Rightarrow> real option) \<Rightarrow> nat \<Rightarrow> pyval list \<Rightarrow> real option list" where
  "acc_triple_of sf i frame =
     [transform_value sf (frame ! (i * 6)) True,
      transform_value sf (frame ! (i * 6 + 1)) True,
      transform_value sf (frame ! (i * 6 + 2)) True]"

definition gyro_triple_of :: "(string \<Rightarrow> real option) \<Rightarrow> nat \<Rightarrow> pyval list \<Rightarrow> real option list" where
  "gyro_triple_of sf i frame =
     [transform_value sf (frame ! (i * 6 + 3)) False,
      transform_value sf (frame ! (i * 6 + 4)) False,
      transform_value sf (frame ! (i * 6 + 5)) False]"

section \<open>Comparison renderer: the column range\<close>

text \<open>
  The slice \<open>xs[lo:hi]\<close> of Python, for any integers: a negative bound counts from the
  end, and both bounds are clamped to the list.
\<close>

definition py_slice :: "'a list \<Rightarrow> int \<Rightarrow> int \<Rightarrow> 'a list" where
  "py_slice xs lo hi =
     (let n = int (length xs);
          l = (if lo < 0 then max 0 (lo + n) else min lo n);
          h = (if hi < 0 then max 0 (hi + n) else min hi n)
      in take (nat (h - l)) (drop (nat l) xs))"

text \<open>
  The three ways in which the comparison functions print an error and return \<open>None\<close>
  before they plot anything.
\<close>

datatype plot_abort = WrongFileCount | NoConvertedColumns | InvalidRange

text \<open>
  The lines shared by \<open>plot_4way_comparison\<close> and \<open>plot_2way_comparison\<close>, from
  \<open>if not columns\<close> to \<open>selected_columns = columns[start_idx-1:end_idx]\<close>, where
  \<open>columns\<close> is the result of \<open>get_filtered_columns\<close> for the requested hand.
\<close>

definition select_columns :: "string list \<Rightarrow> int \<times> int \<Rightarrow> plot_abort + string list" where
  "select_columns columns column_range =
     (if columns = [] then Inl NoConvertedColumns
      else (case column_range of (start_idx, end_idx) \<Rightarrow>
              if start_idx < 1 \<or> end_idx > int (length columns) \<or> start_idx > end_idx
              then Inl InvalidRange
              else Inr (py_slice columns (start_idx - 1) end_idx)))"

text \<open>
  The two renderers up to the selection; the plotting that follows has no further exit,
  so the result is the abort or the list of the columns that are plotted.
\<close>

definition plot_4way_comparison ::
  "'f list \<Rightarrow> string list \<Rightarrow> int \<times> int \<Rightarrow> plot_abort + string list" where
  "plot_4way_comparison json_files columns column_range =
     (if length json_files \<noteq> 4 then Inl WrongFileCount
      else select_columns columns column_range)"

definition plot_2way_comparison :: "string list \<Rightarrow> int \<times> int \<Rightarrow> plot_abort + string list" where
  "plot_2way_comparison columns column_range = select_columns columns column_range"

section \<open>Properties of the frame codec\<close>

lemma py_float_simps:
  "py_float sf PNone = Inl TypeError"
  "py_float sf (PBool b) = Inr (if b then 1 else 0)"
  "py_float sf (PFloat x) = Inr x"
  "py_float sf (PStr s) = (case sf s of None \<Rightarrow> Inl ValueError | Some y \<Rightarrow> Inr y)"
  "py_float sf (PList vs) = Inl TypeError"
  by (simp_all add: py_float_def)

lemma round_to_double_exact:
  assumes "\<bar>i\<bar> < 2 ^ 53"
  shows "round_to_double i = i"
proof -
  have "bitlen \<bar>i\<bar> \<le> 53"
    using assms by (simp add: bitlen_le_iff_power)
  then show ?thesis by (simp add: round_to_double_def Let_def)
qed

lemma py_float_int_exact:
  assumes "\<bar>i\<bar> < 2 ^ 53"
  shows "py_float sf (PInt i) = Inr (real_of_int i)"
proof -
  have "(2::int) ^ 53 < 2 ^ 1024" by simp
  with assms have "\<not> \<bar>i\<bar> \<ge> 2 ^ 1024" by linarith
  then show ?thesis
    by (simp add: py_float_def round_to_double_exact [OF assms])
qed

lemma round_to_double_large:
  assumes "\<bar>i\<bar> \<ge> 2 ^ 1024"
  shows "\<bar>round_to_double i\<bar> \<ge> 2 ^ 1024"
proof -
  define a where "a = \<bar>i\<bar>"
  define n where "n = bitlen a"
  have a: "a \<ge> 2 ^ 1024" "a > 0" using assms by (simp_all add: a_def)
  have i0: "i \<noteq> 0" using a by (auto simp: a_def)
  from bitlen_bounds [OF a(2)] have lo: "2 ^ nat (n - 1) \<le> a" and hi: "a < 2 ^ nat n"
    by (simp_all add: n_def)
  have lt: "(2::int) ^ 1024 < 2 ^ nat n" using a(1) hi by linarith
  have "1024 < nat n" by (rule power_less_imp_less_exp [OF _ lt]) simp
  then have n: "n \<ge> 1025" by linarith
  define p :: int where "p = 2 ^ nat (n - 53)"
  define q where "q = a div p"
  define q1 where "q1 = (if 2 * (a mod p) > p \<or> (2 * (a mod p) = p \<and> odd q) then q + 1 else q)"
  have p0: "p > 0" by (simp add: p_def)
  have split: "(2::int) ^ nat (n - 1) = 2 ^ 52 * p"
  proof -
    have "nat (n - 1) = 52 + nat (n - 53)" using n by linarith
    then show ?thesis by (simp add: p_def power_add)
  qed
  have "2 ^ 52 * p div p \<le> a div p"
    using lo p0 unfolding split by (intro zdiv_mono1) simp_all
  then have q: "q \<ge> 2 ^ 52" using p0 by (simp add: q_def)
  have q1: "q1 \<ge> q" by (simp add: q1_def)
  have "2 ^ 52 * p \<le> q1 * p"
    using q q1 p0 by (intro mult_right_mono) simp_all
  then have big: "q1 * p \<ge> 2 ^ 1024"
  proof -
    have "(2::int) ^ 1024 \<le> 2 ^ nat (n - 1)"
      using n by (intro power_increasing) simp_all
    with \<open>2 ^ 52 * p \<le> q1 * p\<close> show ?thesis unfolding split by linarith
  qed
  have r: "round_to_double i = sgn i * (q1 * p)"
    using n by (simp add: round_to_double_def Let_def a_def [symmetric] n_def [symmetric]
        p_def q1_def q_def)
  have q1p: "0 \<le> q1 * p"
  proof -
    have "(0::int) \<le> 2 ^ 52 * p" using p0 by simp
    with \<open>2 ^ 52 * p \<le> q1 * p\<close> show ?thesis by linarith
  qed
  have "\<bar>sgn i * (q1 * p)\<bar> = \<bar>sgn i\<bar> * \<bar>q1 * p\<bar>" by (rule abs_mult)
  also have "\<dots> = q1 * p" using i0 q1p by (simp only: abs_sgn_eq abs_of_nonneg if_False mult_1)
  finally have "\<bar>round_to_double i\<bar> = q1 * p" by (simp only: r)
  with big show ?thesis by (simp only:)
qed

lemma py_float_int_overflow:
  assumes "\<bar>i\<bar> \<ge> 2 ^ 1024"
  shows "py_float sf (PInt i) = Inl OverflowError"
  using round_to_double_large [OF assms] by (simp add: py_float_def Let_def)

lemma py_float_in_range:
  assumes "0 \<le> r" "r \<le> 65535"
  shows "py_float sf (PInt r) = Inr (real_of_int r)"
proof -
  have "\<bar>r\<bar> < 2 ^ 53" using assms by simp
  then show ?thesis by (rule py_float_int_exact)
qed

lemma round_to_double_ties:
  "round_to_double (2 ^ 53 + 1) = 2 ^ 53"
  "round_to_double (2 ^ 53 + 3) = 2 ^ 53 + 4"
  "round_to_double (- (2 ^ 53) - 1) = - (2 ^ 53)"
  "round_to_double (2 ^ 1024 - 2 ^ 970 - 1) = 2 ^ 1024 - 2 ^ 971"
  "round_to_double (2 ^ 1024 - 2 ^ 970) = 2 ^ 1024"
  by code_simp+

lemma scale_value_signed:
  "scale_value (real_of_int r) is_acc =
     real_of_int (signed_of_raw r) / (if is_acc then 4096.0 else 32.8)"
  by (simp add: scale_value_def signed_of_raw_def)

text \<open>
  Claim C1. For a raw integer \<open>r\<close> with \<open>0 \<le> r \<le> 65535\<close>, both
  \<open>LivePlotter.transform_value\<close> and \<open>transform_value\<close> of plot\_from\_json.py return
  \<open>signed / 4096.0\<close> for the accelerometer and \<open>signed / 32.8\<close> for the gyroscope,
  where \<open>signed = r - 65536\<close> if \<open>r \<ge> 32768\<close> and \<open>signed = r\<close> otherwise. In
  particular 0, 32768, 4096 and 65535 decode to 0, -8, 1 and -1/4096 as accelerometer
  values.
\<close>

theorem decode_formula:
  assumes "0 \<le> r" and "r \<le> 65535"
  shows "LivePlotter_transform_value sf (PInt r) True
           = Inr (Some (real_of_int (signed_of_raw r) / 4096.0))
       \<and> LivePlotter_transform_value sf (PInt r) False
           = Inr (Some (real_of_int (signed_of_raw r) / 32.8))
       \<and> transform_value sf (PInt r) True = Some (real_of_int (signed_of_raw r) / 4096.0)
       \<and> transform_value sf (PInt r) False = Some (real_of_int (signed_of_raw r) / 32.8)
       \<and> signed_of_raw r = (if r \<ge> 32768 then r - 65536 else r)
       \<and> transform_value sf (PInt 0) True = Some 0.0
       \<and> transform_value sf (PInt 32768) True = Some (- 8.0)
       \<and> transform_value sf (PInt 4096) True = Some 1.0
       \<and> transform_value sf (PInt 65535) True = Some (- 1 / 4096)
       \<and> LivePlotter_transform_value sf (PInt 0) True = Inr (Some 0.0)
       \<and> LivePlotter_transform_value sf (PInt 32768) True = Inr (Some (- 8.0))
       \<and> LivePlotter_transform_value sf (PInt 4096) True = Inr (Some 1.0)
       \<and> LivePlotter_transform_value sf (PInt 65535) True = Inr (Some (- 1 / 4096))"
proof -
  have f: "py_float sf (PInt r) = Inr (real_of_int r)"
    using assms by (rule py_float_in_range)
  have c: "py_float sf (PInt 0) = Inr 0" "py_float sf (PInt 32768) = Inr 32768"
    "py_float sf (PInt 4096) = Inr 4096" "py_float sf (PInt 65535) = Inr 65535"
    using py_float_in_range [of 0 sf] py_float_in_range [of 32768 sf]
      py_float_in_range [of 4096 sf] py_float_in_range [of 65535 sf] by simp_all
  show ?thesis
    by (simp add: LivePlotter_transform_value_def transform_value_def f c scale_value_signed
        signed_of_raw_def) (simp add: scale_value_def)
qed

theorem decode_formula_witness:
  "(0::int) \<le> 32800 \<and> (32800::int) \<le> 65535
   \<and> transform_value Map.empty (PInt 32800) False = Some (- 32736 / 32.8)
   \<and> LivePlotter_transform_value Map.empty (PInt 32800) False = Inr (Some (- 32736 / 32.8))"
  using decode_formula [of 32800 Map.empty] by (simp add: signed_of_raw_def)

text \<open>
  Claim C5. For a raw integer \<open>r\<close> with \<open>0 \<le> r \<le> 65535\<close> the accelerometer value
  lies in the half-open interval from -8 to 8 and the gyroscope value in the half-open
  interval from -1000 to 1000, in both decoders.
\<close>

theorem decode_bounds:
  assumes "0 \<le> r" and "r \<le> 65535"
  shows "(\<exists>x. transform_value sf (PInt r) True = Some x \<and> - 8 \<le> x \<and> x < 8)
       \<and> (\<exists>y. transform_value sf (PInt r) False = Some y \<and> - 1000 \<le> y \<and> y < 1000)
       \<and> (\<exists>x. LivePlotter_transform_value sf (PInt r) True = Inr (Some x) \<and> - 8 \<le> x \<and> x < 8)
       \<and> (\<exists>y. LivePlotter_transform_value sf (PInt r) False = Inr (Some y)
                \<and> - 1000 \<le> y \<and> y < 1000)"
proof -
  have f: "py_float sf (PInt r) = Inr (real_of_int r)"
    using assms by (rule py_float_in_range)
  have a: "- 8 \<le> scale_value (real_of_int r) True \<and> scale_value (real_of_int r) True < 8"
    using assms by (auto simp: scale_value_def)
  have g: "- 1000 \<le> scale_value (real_of_int r) False
         \<and> scale_value (real_of_int r) False < 1000"
    using assms by (auto simp: scale_value_def field_simps)
  show ?thesis
    using a g by (simp add: LivePlotter_transform_value_def transform_value_def f)
qed


theorem decode_bounds_witness:
  "(0::int) \<le> 32768 \<and> (32768::int) \<le> 65535
   \<and> (\<exists>x. transform_value Map.empty (PInt 32768) True = Some x \<and> - 8 \<le> x \<and> x < 8)
   \<and> (\<exists>y. LivePlotter_transform_value Map.empty (PInt 32768) False = Inr (Some y)
            \<and> - 1000 \<le> y \<and> y < 1000)"
  using decode_bounds [of 32768 Map.empty] by simp

text \<open>
  Claim C6 says that every input that is not an integer between 0 and 65535 decodes to
  the invalid marker. The decoders have no range check: 70000, -5 and 1.5 are converted
  like any other number.
\<close>

theorem decode_out_of_range_counterexample:
  "LivePlotter_transform_value Map.empty (PInt 70000) True = Inr (Some (279 / 256))
   \<and> advanced_transform_value Map.empty (PInt 70000) True = Some (279 / 256)
   \<and> LivePlotter_transform_value Map.empty (PInt (- 5)) False = Inr (Some (- 5 / 32.8))
   \<and> advanced_transform_value Map.empty (PFloat 1.5) True = Some (1.5 / 4096)"
  by (simp add: LivePlotter_transform_value_def advanced_transform_value_def
      py_float_int_exact py_float_simps scale_value_def)

text \<open>
  Claim C6, amended. A decoder returns the invalid marker only when \<open>float\<close> fails on
  the input. When \<open>float\<close> fails with ValueError or TypeError (on \<open>None\<close>, on a list,
  on a string it cannot parse) all three decoders return the invalid marker and raise
  nothing; the two decoders with a bare \<open>except\<close>, in plot\_from\_json.py and
  advanced\_plotter.py, do so on every failure of \<open>float\<close>, also on an integer of
  magnitude \<open>2^1024\<close> or more, which does not fit a double. Every input that \<open>float\<close>
  converts to a number \<open>x\<close>, inside the range from 0 to 65535 or not, is decoded to the
  scaled value of \<open>x\<close>: every float, every string that parses, and every integer below
  \<open>2^53\<close> in magnitude, which converts to itself.
\<close>

theorem decode_invalid_iff_rejected:
  "(transform_value sf val is_acc = None \<longleftrightarrow> (\<exists>e. py_float sf val = Inl e))
   \<and> (advanced_transform_value sf val is_acc = None \<longleftrightarrow> (\<exists>e. py_float sf val = Inl e))
   \<and> (py_float sf val = Inl ValueError \<or> py_float sf val = Inl TypeError \<longrightarrow>
        LivePlotter_transform_value sf val is_acc = Inr None)
   \<and> (LivePlotter_transform_value sf val is_acc = Inr None \<longrightarrow> (\<exists>e. py_float sf val = Inl e))
   \<and> (py_float sf val = Inr x \<longrightarrow>
        LivePlotter_transform_value sf val is_acc = Inr (Some (scale_value x is_acc))
      \<and> advanced_transform_value sf val is_acc = Some (scale_value x is_acc)
      \<and> transform_value sf val is_acc = Some (scale_value x is_acc))
   \<and> py_float sf PNone = Inl TypeError
   \<and> py_float sf (PList vs) = Inl TypeError
   \<and> (sf s = None \<longrightarrow> py_float sf (PStr s) = Inl ValueError)
   \<and> (sf s = Some y \<longrightarrow> py_float sf (PStr s) = Inr y)
   \<and> py_float sf (PFloat x) = Inr x
   \<and> (\<bar>i\<bar> < 2 ^ 53 \<longrightarrow> py_float sf (PInt i) = Inr (real_of_int i))
   \<and> (\<bar>i\<bar> \<ge> 2 ^ 1024 \<longrightarrow>
        py_float sf (PInt i) = Inl OverflowError
      \<and> transform_value sf (PInt i) is_acc = None
      \<and> advanced_transform_value sf (PInt i) is_acc = None)"
proof -
  have offline: "transform_value sf v is_acc = None \<longleftrightarrow> (\<exists>e. py_float sf v = Inl e)"
    "advanced_transform_value sf v is_acc = None \<longleftrightarrow> (\<exists>e. py_float sf v = Inl e)" for v
    by (cases "py_float sf v"; simp add: transform_value_def advanced_transform_value_def)+
  have live1: "LivePlotter_transform_value sf val is_acc = Inr None"
    if "py_float sf val = Inl ValueError \<or> py_float sf val = Inl TypeError"
    using that by (auto simp: LivePlotter_transform_value_def)
  have live2: "\<exists>e. py_float sf val = Inl e"
    if "LivePlotter_transform_value sf val is_acc = Inr None"
    using that by (cases "py_float sf val") (simp_all add: LivePlotter_transform_value_def)
  have conv: "LivePlotter_transform_value sf val is_acc = Inr (Some (scale_value x is_acc))
      \<and> advanced_transform_value sf val is_acc = Some (scale_value x is_acc)
      \<and> transform_value sf val is_acc = Some (scale_value x is_acc)"
    if "py_float sf val = Inr x"
    using that
    by (simp add: LivePlotter_transform_value_def advanced_transform_value_def
        transform_value_def scale_value_def)
  have ovf: "py_float sf (PInt i) = Inl OverflowError
      \<and> transform_value sf (PInt i) is_acc = None
      \<and> advanced_transform_value sf (PInt i) is_acc = None"
    if "\<bar>i\<bar> \<ge> 2 ^ 1024"
    using py_float_int_overflow [OF that, of sf] offline [of "PInt i"] by simp
  show ?thesis
    using offline [of val] live1 live2 conv ovf py_float_int_exact [of i sf]
    by (simp add: py_float_simps)
qed

theorem decode_invalid_iff_rejected_witness:
  "Map.empty ''abc'' = (None :: real option)
   \<and> py_float Map.empty (PStr ''abc'') = Inl ValueError
   \<and> LivePlotter_transform_value Map.empty (PStr ''abc'') True = Inr None
   \<and> advanced_transform_value Map.empty (PStr ''abc'') True = None
   \<and> transform_value Map.empty (PStr ''abc'') True = None
   \<and> \<bar>70000 :: int\<bar> < 2 ^ 53
   \<and> py_float Map.empty (PInt 70000) = Inr 70000
   \<and> advanced_transform_value Map.empty (PInt 70000) False = Some (scale_value 70000 False)
   \<and> LivePlotter_transform_value Map.empty (PInt 70000) False
       = Inr (Some (scale_value 70000 False))
   \<and> \<bar>2 ^ 1024 :: int\<bar> \<ge> 2 ^ 1024
   \<and> py_float Map.empty (PInt (2 ^ 1024)) = Inl OverflowError
   \<and> transform_value Map.empty (PInt (2 ^ 1024)) True = None
   \<and> advanced_transform_value Map.empty (PInt (2 ^ 1024)) True = None"
  using decode_invalid_iff_rejected
      [of Map.empty "PStr ''abc''" True 0 "[]" "''abc''" 0 0]
    decode_invalid_iff_rejected
      [of Map.empty "PInt 70000" False 70000 "[]" "''abc''" 0 70000]
    decode_invalid_iff_rejected
      [of Map.empty "PInt (2 ^ 1024)" True 0 "[]" "''abc''" 0 "2 ^ 1024"]
  by simp

section \<open>Properties of the frame geometry\<close>

lemma FINGER_enum:
  "enumerate 0 FINGER_NAMES =
     [(0, ''IndexFinger''), (1, ''MiddleFinger''), (2, ''RingFinger''),
      (3, ''LittleFinger''), (4, ''Thumb''), (5, ''Palm'')]"
  by (simp add: FINGER_NAMES_def)

lemma take3_drop:
  assumes "n + 3 \<le> length xs"
  shows "take 3 (drop n xs) = [xs ! n, xs ! (n + 1), xs ! (n + 2)]"
proof (rule nth_equalityI)
  show "length (take 3 (drop n xs)) = length [xs ! n, xs ! (n + 1), xs ! (n + 2)]"
    using assms by simp
next
  fix i assume "i < length (take 3 (drop n xs))"
  then have "i < 3" by simp
  then consider "i = 0" | "i = 1" | "i = 2" by linarith
  then show "take 3 (drop n xs) ! i = [xs ! n, xs ! (n + 1), xs ! (n + 2)] ! i"
    using assms by cases simp_all
qed

lemma take6_split: "take 6 ys = take 3 ys @ take 3 (drop 3 ys)"
proof -
  have "take (3 + 3) ys = take 3 ys @ take 3 (drop 3 ys)" by (rule take_add)
  then show ?thesis by simp
qed

lemma lt6_cases:
  assumes "i < (6::nat)"
  obtains "i = 0" | "i = 1" | "i = 2" | "i = 3" | "i = 4" | "i = 5"
  using assms by linarith

text \<open>
  Claim C2. \<open>parse_frame_data\<close> returns \<open>None\<close> for every sequence whose length is
  not 36, whatever its entries are: the length test is the first statement and no entry
  is read or decoded before it. For a sequence of length 36 it returns six entries, for
  IndexFinger, MiddleFinger, RingFinger, LittleFinger, Thumb and Palm in this order;
  entry \<open>i\<close> holds the six values from offset \<open>6 i\<close> on, the first three as its
  accelerometer values and the last three as its gyroscope values.
\<close>

theorem parse_frame_data_geometry:
  "(length frame \<noteq> 36 \<longrightarrow> parse_frame_data frame = None)
   \<and> (length frame = 36 \<longrightarrow>
        (\<exists>parsed. parse_frame_data frame = Some parsed
           \<and> length parsed = 6
           \<and> map fst parsed =
               [''IndexFinger'', ''MiddleFinger'', ''RingFinger'', ''LittleFinger'',
                ''Thumb'', ''Palm'']
           \<and> (\<forall>i < 6.
                 acc_raw (snd (parsed ! i)) = take 3 (drop (i * 6) frame)
               \<and> gyro_raw (snd (parsed ! i)) = take 3 (drop (i * 6 + 3) frame)
               \<and> acc_raw (snd (parsed ! i)) @ gyro_raw (snd (parsed ! i))
                   = take 6 (drop (i * 6) frame))))"
proof (intro conjI impI)
  assume "length frame \<noteq> 36"
  then show "parse_frame_data frame = None" by (simp add: parse_frame_data_def)
next
  assume len: "length frame = 36"
  define parsed where "parsed = the (parse_frame_data frame)"
  have p: "parse_frame_data frame = Some parsed"
    using len by (simp add: parsed_def parse_frame_data_def)
  have eq: "parsed =
      map (\<lambda>(i, finger).
             (finger,
              \<lparr>acc_raw = [frame ! (i * 6), frame ! (i * 6 + 1), frame ! (i * 6 + 2)],
               gyro_raw = [frame ! (i * 6 + 3), frame ! (i * 6 + 4), frame ! (i * 6 + 5)]\<rparr>))
        [(0, ''IndexFinger''), (1, ''MiddleFinger''), (2, ''RingFinger''),
         (3, ''LittleFinger''), (4, ''Thumb''), (5, ''Palm'')]"
    using len by (simp add: parsed_def parse_frame_data_def FINGER_enum Let_def)
  have slices: "acc_raw (snd (parsed ! i)) = take 3 (drop (i * 6) frame)
      \<and> gyro_raw (snd (parsed ! i)) = take 3 (drop (i * 6 + 3) frame)
      \<and> acc_raw (snd (parsed ! i)) @ gyro_raw (snd (parsed ! i)) = take 6 (drop (i * 6) frame)"
    if "i < 6" for i
  proof -
    have a: "acc_raw (snd (parsed ! i)) = [frame ! (i * 6), frame ! (i * 6 + 1), frame ! (i * 6 + 2)]"
      and g: "gyro_raw (snd (parsed ! i)) = [frame ! (i * 6 + 3), frame ! (i * 6 + 4), frame ! (i * 6 + 5)]"
      using that by (cases i rule: lt6_cases; simp add: eq)+
    have ta: "take 3 (drop (i * 6) frame) = [frame ! (i * 6), frame ! (i * 6 + 1), frame ! (i * 6 + 2)]"
      using that len by (intro take3_drop) simp
    have tg: "take 3 (drop (i * 6 + 3) frame)
               = [frame ! (i * 6 + 3), frame ! (i * 6 + 3 + 1), frame ! (i * 6 + 3 + 2)]"
      using that len by (intro take3_drop) simp
    have "take 6 (drop (i * 6) frame)
            = take 3 (drop (i * 6) frame) @ take 3 (drop 3 (drop (i * 6) frame))"
      by (rule take6_split)
    also have "drop 3 (drop (i * 6) frame) = drop (i * 6 + 3) frame"
      by (simp add: add.commute)
    finally have t6: "take 6 (drop (i * 6) frame)
            = take 3 (drop (i * 6) frame) @ take 3 (drop (i * 6 + 3) frame)" .
    show ?thesis using a g ta tg t6 by (simp add: add.assoc add.commute)
  qed
  have "length parsed = 6" by (simp add: eq)
  moreover have "map fst parsed =
      [''IndexFinger'', ''MiddleFinger'', ''RingFinger'', ''LittleFinger'', ''Thumb'', ''Palm'']"
    by (simp add: eq)
  ultimately show "\<exists>parsed. parse_frame_data frame = Some parsed
           \<and> length parsed = 6
           \<and> map fst parsed =
               [''IndexFinger'', ''MiddleFinger'', ''RingFinger'', ''LittleFinger'',
                ''Thumb'', ''Palm'']
           \<and> (\<forall>i < 6.
                 acc_raw (snd (parsed ! i)) = take 3 (drop (i * 6) frame)
               \<and> gyro_raw (snd (parsed ! i)) = take 3 (drop (i * 6 + 3) frame)
               \<and> acc_raw (snd (parsed ! i)) @ gyro_raw (snd (parsed ! i))
                   = take 6 (drop (i * 6) frame))"
    using p slices by (intro exI [of _ parsed] conjI allI impI) blast+
qed

theorem parse_frame_data_geometry_witness:
  "length (map PInt [0 ..< 36]) = 36
   \<and> length (map PInt [0 ..< 35]) \<noteq> 36
   \<and> parse_frame_data (map PInt [0 ..< 35]) = None
   \<and> (\<exists>parsed. parse_frame_data (map PInt [0 ..< 36]) = Some parsed
         \<and> map fst parsed =
               [''IndexFinger'', ''MiddleFinger'', ''RingFinger'', ''LittleFinger'',
                ''Thumb'', ''Palm'']
         \<and> acc_raw (snd (parsed ! 4)) = [PInt 24, PInt 25, PInt 26]
         \<and> gyro_raw (snd (parsed ! 4)) = [PInt 27, PInt 28, PInt 29])"
proof -
  let ?f = "map PInt [0 ..< 36]"
  have l: "length ?f = 36" and l': "length (map PInt [0 ..< 35]) \<noteq> 36" by simp_all
  have n: "parse_frame_data (map PInt [0 ..< 35]) = None"
    using parse_frame_data_geometry [of "map PInt [0 ..< 35]", THEN conjunct1] l' by (rule mp)
  have "\<exists>parsed. parse_frame_data ?f = Some parsed
           \<and> length parsed = 6
           \<and> map fst parsed =
               [''IndexFinger'', ''MiddleFinger'', ''RingFinger'', ''LittleFinger'',
                ''Thumb'', ''Palm'']
           \<and> (\<forall>i < 6.
                 acc_raw (snd (parsed ! i)) = take 3 (drop (i * 6) ?f)
               \<and> gyro_raw (snd (parsed ! i)) = take 3 (drop (i * 6 + 3) ?f)
               \<and> acc_raw (snd (parsed ! i)) @ gyro_raw (snd (parsed ! i))
                   = take 6 (drop (i * 6) ?f))"
    using parse_frame_data_geometry [of ?f, THEN conjunct2] l by (rule mp)
  then obtain parsed where
    p: "parse_frame_data ?f = Some parsed"
    and names: "map fst parsed =
               [''IndexFinger'', ''MiddleFinger'', ''RingFinger'', ''LittleFinger'',
                ''Thumb'', ''Palm'']"
    and sl: "\<forall>i < 6. acc_raw (snd (parsed ! i)) = take 3 (drop (i * 6) ?f)
               \<and> gyro_raw (snd (parsed ! i)) = take 3 (drop (i * 6 + 3) ?f)
               \<and> acc_raw (snd (parsed ! i)) @ gyro_raw (snd (parsed ! i))
                   = take 6 (drop (i * 6) ?f)"
    by (elim exE conjE)
  have four: "(4::nat) < 6" by simp
  from sl [rule_format, OF four]
  have a: "acc_raw (snd (parsed ! 4)) = take 3 (drop (4 * 6) ?f)"
    and g: "gyro_raw (snd (parsed ! 4)) = take 3 (drop (4 * 6 + 3) ?f)" by simp_all
  have "take 3 (drop (4 * 6) ?f) = [PInt 24, PInt 25, PInt 26]"
    and "take 3 (drop (4 * 6 + 3) ?f) = [PInt 27, PInt 28, PInt 29]"
    by (simp_all add: upt_rec drop_map take_map)
  with a g have "acc_raw (snd (parsed ! 4)) = [PInt 24, PInt 25, PInt 26]"
    and "gyro_raw (snd (parsed ! 4)) = [PInt 27, PInt 28, PInt 29]" by simp_all
  with p names have "\<exists>parsed. parse_frame_data (map PInt [0 ..< 36]) = Some parsed
         \<and> map fst parsed =
               [''IndexFinger'', ''MiddleFinger'', ''RingFinger'', ''LittleFinger'',
                ''Thumb'', ''Palm'']
         \<and> acc_raw (snd (parsed ! 4)) = [PInt 24, PInt 25, PInt 26]
         \<and> gyro_raw (snd (parsed ! 4)) = [PInt 27, PInt 28, PInt 29]"
    by (intro exI [of _ parsed] conjI)
  with l l' n show ?thesis by (intro conjI)
qed

section \<open>Properties of the rolling display window\<close>

lemma keys_differ: "acc_key hand \<noteq> gyro_key hand"
  by (simp add: acc_key_def gyro_key_def)

lemma add_data_stream:
  "data (FingerWindow_add_data w hand a g) k =
     (if acc_key hand = k \<and> all_not_None a then deque_append data_maxlen (data w k) a
      else if gyro_key hand = k \<and> all_not_None g then deque_append data_maxlen (data w k) g
      else data w k)"
  using keys_differ [of hand] by (auto simp: FingerWindow_add_data_def Let_def)

lemma add_data_total:
  "total_frames (FingerWindow_add_data w hand a g) k =
     (if acc_key hand = k \<and> all_not_None a then total_frames w k + 1
      else if gyro_key hand = k \<and> all_not_None g then total_frames w k + 1
      else total_frames w k)"
  using keys_differ [of hand] by (auto simp: FingerWindow_add_data_def Let_def)

lemma add_data_max_frames:
  "max_frames (FingerWindow_add_data w hand a g) = max_frames w"
  by (simp add: FingerWindow_add_data_def Let_def)

lemma feed_window_snoc:
  "feed_window w (samples @ [(hand, a, g)]) =
     FingerWindow_add_data (feed_window w samples) hand a g"
  by (simp add: feed_window_def)

lemma feed_window_max_frames: "max_frames (feed_window w samples) = max_frames w"
  by (induction samples rule: rev_induct)
     (auto simp: feed_window_snoc add_data_max_frames feed_window_def)

lemma accepted_append: "accepted k (xs @ ys) = accepted k xs @ accepted k ys"
  by (induction xs) auto

lemma accepted_snoc:
  "accepted k (xs @ [(hand, a, g)]) =
     accepted k xs @
       (if acc_key hand = k \<and> all_not_None a then [a]
        else if gyro_key hand = k \<and> all_not_None g then [g] else [])"
  using keys_differ [of hand] by (auto simp: accepted_append)

lemma deque_append_drop:
  "deque_append m (drop (length xs - m) xs) x = drop (length (xs @ [x]) - m) (xs @ [x])"
proof (cases "length xs < m")
  case True
  then show ?thesis by (simp add: deque_append_def)
next
  case False
  then have "length xs - m < length xs \<or> xs = [] \<or> m = 0" by auto
  show ?thesis
  proof (cases "m = 0")
    case True
    then show ?thesis by (simp add: deque_append_def)
  next
    case m: False
    with False have lt: "length xs - m < length xs" by simp
    have "tl (drop (length xs - m) xs @ [x]) = tl (drop (length xs - m) xs) @ [x]"
      using lt by (cases "drop (length xs - m) xs") auto
    also have "tl (drop (length xs - m) xs) = drop (Suc (length xs - m)) xs"
      by (simp add: drop_Suc tl_drop)
    finally show ?thesis using False m by (simp add: deque_append_def Suc_diff_le)
  qed
qed

lemma feed_window_stream:
  assumes "data w k = []" and "total_frames w k = 0"
  shows "data (feed_window w samples) k =
           drop (length (accepted k samples) - data_maxlen) (accepted k samples)
       \<and> total_frames (feed_window w samples) k = length (accepted k samples)"
proof (induction samples rule: rev_induct)
  case Nil
  then show ?case using assms by (simp add: feed_window_def)
next
  case (snoc e samples)
  obtain hand a g where e: "e = (hand, a, g)" by (cases e)
  show ?case
    using snoc deque_append_drop [of data_maxlen "accepted k samples"]
    by (simp add: e feed_window_snoc add_data_stream add_data_total accepted_snoc)
qed

lemma update_stream_view:
  assumes d: "data w k = drop (length A - 500) A" and t: "total_frames w k = length A"
    and m: "max_frames w = 200" and n: "A \<noteq> []"
  shows "update_stream w k =
           Some \<lparr>start_frame = length A - 200, end_frame = length A,
                 frames = [length A - 200 ..< length A],
                 display_data = drop (length A - 200) A\<rparr>"
proof (cases "length A > 200")
  case True
  have "length (drop (length A - 500) A) - 200 + (length A - 500) = length A - 200"
    using True by simp
  then have "py_last 200 (drop (length A - 500) A) = drop (length A - 200) A"
    by (simp add: py_last_def)
  then show ?thesis using True n d t m by (simp add: update_stream_def Let_def)
next
  case False
  then show ?thesis using n d t m by (simp add: update_stream_def Let_def)
qed

text \<open>
  Claim C3. Take a window whose display limit \<open>max_frames\<close> is the 200 that
  \<open>__init__\<close> sets, clear it, and run any sequence of \<open>add_data\<close> calls on it. For
  each of the four streams, with \<open>n\<close> the number of samples the stream accepted: the
  total-seen counter is \<open>n\<close> and is at least the buffer length; the buffer holds the last
  \<open>min n 500\<close> accepted samples, so at most 500, the oldest evicted first; and
  \<open>update\<close> shows the last \<open>min n 200\<close> buffered entries, numbered from
  \<open>max 0 (n - 200)\<close> to \<open>n\<close>. With 700 accepted samples the buffer length is 500,
  the counter 700, the visible slice has 200 entries and starts at frame 500.
\<close>

theorem rolling_window_invariant:
  assumes "max_frames w0 = 200"
  shows "let w = feed_window (FingerWindow_clear w0) samples;
             A = accepted k samples;
             n = length A
         in total_frames w k = n
          \<and> total_frames w k \<ge> length (data w k)
          \<and> length (data w k) \<le> 500
          \<and> length (data w k) = min n 500
          \<and> data w k = drop (n - 500) A
          \<and> (n = 0 \<longrightarrow> update_stream w k = None)
          \<and> (n > 0 \<longrightarrow>
               update_stream w k =
                 Some \<lparr>start_frame = nat (max 0 (int n - 200)), end_frame = n,
                       frames = [nat (max 0 (int n - 200)) ..< n],
                       display_data = drop (length (data w k) - min n 200) (data w k)\<rparr>
               \<and> drop (length (data w k) - min n 200) (data w k) = drop (n - min n 200) A
               \<and> length (drop (length (data w k) - min n 200) (data w k)) = min n 200)
          \<and> (n = 700 \<longrightarrow>
               length (data w k) = 500 \<and> total_frames w k = 700
               \<and> (\<exists>v. update_stream w k = Some v \<and> length (display_data v) = 200
                       \<and> start_frame v = 500))"
proof -
  define w where "w = feed_window (FingerWindow_clear w0) samples"
  define A where "A = accepted k samples"
  have c: "data (FingerWindow_clear w0) k = []" "total_frames (FingerWindow_clear w0) k = 0"
    by (simp_all add: FingerWindow_clear_def)
  have d: "data w k = drop (length A - 500) A" and t: "total_frames w k = length A"
    using feed_window_stream [OF c, of samples] by (simp_all add: w_def A_def data_maxlen_def)
  have m: "max_frames w = 200"
    using assms by (simp add: w_def feed_window_max_frames FingerWindow_clear_def)
  have len: "length (data w k) = min (length A) 500" by (simp add: d)
  have empty: "update_stream w k = None" if "length A = 0"
    using that d by (simp add: update_stream_def)
  have dd: "drop (length (data w k) - min (length A) 200) (data w k)
              = drop (length A - min (length A) 200) A"
    by (simp add: d)
  have view: "update_stream w k =
      Some \<lparr>start_frame = nat (max 0 (int (length A) - 200)), end_frame = length A,
            frames = [nat (max 0 (int (length A) - 200)) ..< length A],
            display_data = drop (length (data w k) - min (length A) 200) (data w k)\<rparr>"
    if "length A > 0"
  proof -
    have s: "nat (max 0 (int (length A) - 200)) = length A - 200" by simp
    have "drop (length A - min (length A) 200) A = drop (length A - 200) A"
      by (simp add: min_def)
    with dd s update_stream_view [OF d t m] that show ?thesis by simp
  qed
  have f1: "total_frames w k = length A" by (rule t)
  have f2: "total_frames w k \<ge> length (data w k)" by (simp add: t len)
  have f3: "length (data w k) \<le> 500" by (simp add: len)
  have f6: "length A = 0 \<longrightarrow> update_stream w k = None" using empty by blast
  have f7: "length A > 0 \<longrightarrow>
               update_stream w k =
                 Some \<lparr>start_frame = nat (max 0 (int (length A) - 200)), end_frame = length A,
                       frames = [nat (max 0 (int (length A) - 200)) ..< length A],
                       display_data = drop (length (data w k) - min (length A) 200) (data w k)\<rparr>
               \<and> drop (length (data w k) - min (length A) 200) (data w k)
                    = drop (length A - min (length A) 200) A
               \<and> length (drop (length (data w k) - min (length A) 200) (data w k))
                    = min (length A) 200"
  proof (intro impI conjI)
    assume p: "length A > 0"
    show "update_stream w k =
                 Some \<lparr>start_frame = nat (max 0 (int (length A) - 200)), end_frame = length A,
                       frames = [nat (max 0 (int (length A) - 200)) ..< length A],
                       display_data = drop (length (data w k) - min (length A) 200) (data w k)\<rparr>"
      by (rule view [OF p])
    show "drop (length (data w k) - min (length A) 200) (data w k)
                    = drop (length A - min (length A) 200) A" by (rule dd)
    show "length (drop (length (data w k) - min (length A) 200) (data w k))
                    = min (length A) 200"
      by (simp add: len)
  qed
  have f8: "length A = 700 \<longrightarrow>
               length (data w k) = 500 \<and> total_frames w k = 700
               \<and> (\<exists>v. update_stream w k = Some v \<and> length (display_data v) = 200
                       \<and> start_frame v = 500)"
  proof (intro impI conjI)
    assume n: "length A = 700"
    show "length (data w k) = 500" using n len by simp
    show "total_frames w k = 700" using n t by simp
    have p: "length A > 0" using n by simp
    let ?v = "\<lparr>start_frame = nat (max 0 (int (length A) - 200)), end_frame = length A,
               frames = [nat (max 0 (int (length A) - 200)) ..< length A],
               display_data = drop (length (data w k) - min (length A) 200) (data w k)\<rparr>"
    have u: "update_stream w k = Some ?v" by (rule view [OF p])
    have l: "length (display_data ?v) = 200" using n len by simp
    have st: "start_frame ?v = 500" using n by simp
    from u l st show "\<exists>v. update_stream w k = Some v \<and> length (display_data v) = 200
                       \<and> start_frame v = 500"
      by (intro exI [of _ ?v] conjI)
  qed
  from f1 f2 f3 len d f6 f7 f8 show ?thesis
    unfolding Let_def w_def A_def by (intro conjI)
qed


lemma accepted_replicate:
  assumes "acc_key hand = k" and "all_not_None a"
  shows "accepted k (replicate n (hand, a, g)) = replicate n a"
  using assms keys_differ [of hand] by (induction n) auto

theorem rolling_window_invariant_witness:
  "max_frames (FingerWindow_init ''Thumb'') = 200
   \<and> (let w = feed_window (FingerWindow_clear (FingerWindow_init ''Thumb''))
                 [(''Left'', [Some 1, Some 2, Some 3], [Some 4, None, Some 6]),
                  (''Right'', [Some 0, Some 0, Some 1], [Some 7, Some 8, Some 9]),
                  (''Left'', [Some 5, Some 5, Some 5], [Some 1, Some 1, Some 1])]
      in total_frames w left_acc = 2
       \<and> data w left_acc = [ [Some 1, Some 2, Some 3], [Some 5, Some 5, Some 5] ]
       \<and> update_stream w left_acc =
           Some \<lparr>start_frame = 0, end_frame = 2, frames = [0, 1],
                 display_data = [ [Some 1, Some 2, Some 3], [Some 5, Some 5, Some 5] ]\<rparr>)
   \<and> length (accepted left_acc
         (replicate 700 (''Left'', [Some 1, Some 2, Some 3], [Some 4, Some 5, Some 6]))) = 700
   \<and> (let w = feed_window (FingerWindow_clear (FingerWindow_init ''Thumb''))
                 (replicate 700 (''Left'', [Some 1, Some 2, Some 3], [Some 4, Some 5, Some 6]))
      in length (data w left_acc) = 500 \<and> total_frames w left_acc = 700
       \<and> (\<exists>v. update_stream w left_acc = Some v \<and> length (display_data v) = 200
               \<and> start_frame v = 500))"
proof -
  have m: "max_frames (FingerWindow_init ''Thumb'') = 200"
    by (simp add: FingerWindow_init_def)
  have small: "let w = feed_window (FingerWindow_clear (FingerWindow_init ''Thumb''))
                 [(''Left'', [Some 1, Some 2, Some 3], [Some 4, None, Some 6]),
                  (''Right'', [Some 0, Some 0, Some 1], [Some 7, Some 8, Some 9]),
                  (''Left'', [Some 5, Some 5, Some 5], [Some 1, Some 1, Some 1])]
      in total_frames w left_acc = 2
       \<and> data w left_acc = [ [Some 1, Some 2, Some 3], [Some 5, Some 5, Some 5] ]
       \<and> update_stream w left_acc =
           Some \<lparr>start_frame = 0, end_frame = 2, frames = [0, 1],
                 display_data = [ [Some 1, Some 2, Some 3], [Some 5, Some 5, Some 5] ]\<rparr>"
    using rolling_window_invariant [OF m,
        of "[(''Left'', [Some 1, Some 2, Some 3], [Some 4, None, Some 6]),
             (''Right'', [Some 0, Some 0, Some 1], [Some 7, Some 8, Some 9]),
             (''Left'', [Some 5, Some 5, Some 5], [Some 1, Some 1, Some 1])]" left_acc]
    by (simp add: Let_def acc_key_def gyro_key_def all_not_None_def upt_rec)
  have n: "length (accepted left_acc
         (replicate 700 (''Left'', [Some 1, Some 2, Some 3], [Some 4, Some 5, Some 6]))) = 700"
    by (simp add: accepted_replicate acc_key_def all_not_None_def)
  have big: "let w = feed_window (FingerWindow_clear (FingerWindow_init ''Thumb''))
                 (replicate 700 (''Left'', [Some 1, Some 2, Some 3], [Some 4, Some 5, Some 6]))
      in length (data w left_acc) = 500 \<and> total_frames w left_acc = 700
       \<and> (\<exists>v. update_stream w left_acc = Some v \<and> length (display_data v) = 200
               \<and> start_frame v = 500)"
    using rolling_window_invariant [OF m,
        of "replicate 700 (''Left'', [Some 1, Some 2, Some 3], [Some 4, Some 5, Some 6])"
           left_acc] n
    unfolding Let_def by blast
  from m small n big show ?thesis by (intro conjI)
qed

lemma all_not_None_iff: "all_not_None xs \<longleftrightarrow> None \<notin> set xs"
  unfolding all_not_None_def list_all_iff by metis

text \<open>
  Claim C7. \<open>FingerWindow.add_data\<close> with an accelerometer triple that contains
  \<open>None\<close> leaves the buffer and the total-seen counter of the accelerometer stream of
  that hand as they were, and likewise for a gyroscope triple and the gyroscope stream; a
  triple without \<open>None\<close> is appended to the bounded buffer and counted. In the loop of
  \<open>LivePlotter.add_data\<close> a finger with \<open>None\<close> among its six converted values
  leaves all windows unchanged.
\<close>

theorem add_sample_invalid_noop:
  "(None \<in> set acc_data \<longrightarrow>
       data (FingerWindow_add_data w hand acc_data gyro_data) (acc_key hand)
         = data w (acc_key hand)
     \<and> total_frames (FingerWindow_add_data w hand acc_data gyro_data) (acc_key hand)
         = total_frames w (acc_key hand))
   \<and> (None \<in> set gyro_data \<longrightarrow>
       data (FingerWindow_add_data w hand acc_data gyro_data) (gyro_key hand)
         = data w (gyro_key hand)
     \<and> total_frames (FingerWindow_add_data w hand acc_data gyro_data) (gyro_key hand)
         = total_frames w (gyro_key hand))
   \<and> (None \<notin> set acc_data \<longrightarrow>
       data (FingerWindow_add_data w hand acc_data gyro_data) (acc_key hand)
         = deque_append 500 (data w (acc_key hand)) acc_data
     \<and> total_frames (FingerWindow_add_data w hand acc_data gyro_data) (acc_key hand)
         = total_frames w (acc_key hand) + 1)
   \<and> (None \<notin> set gyro_data \<longrightarrow>
       data (FingerWindow_add_data w hand acc_data gyro_data) (gyro_key hand)
         = deque_append 500 (data w (gyro_key hand)) gyro_data
     \<and> total_frames (FingerWindow_add_data w hand acc_data gyro_data) (gyro_key hand)
         = total_frames w (gyro_key hand) + 1)
   \<and> (map_of frame_data finger = Some finger_raw
        \<and> transform_all sf (acc_raw finger_raw) True = Inr acc_converted
        \<and> transform_all sf (gyro_raw finger_raw) False = Inr gyro_converted
        \<and> (None \<in> set acc_converted \<or> None \<in> set gyro_converted) \<longrightarrow>
       process_fingers sf fws hand frame_data [finger] = (fws, None))"
  using keys_differ [of hand]
  by (auto simp: add_data_stream add_data_total all_not_None_iff data_maxlen_def)


theorem add_sample_invalid_noop_witness:
  "None \<in> set [Some 1, None, Some (3::real)]
   \<and> None \<notin> set [Some 4, Some 5, Some (6::real)]
   \<and> (let w = FingerWindow_add_data (FingerWindow_init ''Palm'') ''Left''
                 [Some 1, None, Some 3] [Some 4, Some 5, Some 6]
      in data w left_acc = [] \<and> total_frames w left_acc = 0
       \<and> data w left_gyro = [ [Some 4, Some 5, Some 6] ] \<and> total_frames w left_gyro = 1)
   \<and> (let w = FingerWindow_add_data (FingerWindow_init ''Palm'') ''Right''
                 [Some 4, Some 5, Some 6] [Some 1, None, Some 3]
      in data w right_gyro = [] \<and> total_frames w right_gyro = 0
       \<and> data w right_acc = [ [Some 4, Some 5, Some 6] ] \<and> total_frames w right_acc = 1)
   \<and> process_fingers Map.empty FingerWindow_init ''Left''
        [(''Palm'', \<lparr>acc_raw = [PNone, PInt 4096, PInt 0],
                     gyro_raw = [PInt 0, PInt 0, PInt 0]\<rparr>)] [''Palm'']
      = (FingerWindow_init, None)"
proof -
  have t1: "transform_all Map.empty [PNone, PInt 4096, PInt 0] True = Inr [None, Some 1, Some 0]"
    by (simp add: LivePlotter_transform_value_def py_float_int_exact py_float_simps scale_value_def)
  have t2: "transform_all Map.empty [PInt 0, PInt 0, PInt 0] False = Inr [Some 0, Some 0, Some 0]"
    by (simp add: LivePlotter_transform_value_def py_float_int_exact py_float_simps scale_value_def)
  show ?thesis
    using add_sample_invalid_noop [of "[Some 1, None, Some 3]" "FingerWindow_init ''Palm''"
        "''Left''" "[Some 4, Some 5, Some 6]"
        "[(''Palm'', \<lparr>acc_raw = [PNone, PInt 4096, PInt 0],
                      gyro_raw = [PInt 0, PInt 0, PInt 0]\<rparr>)]"
        "''Palm''"
        "\<lparr>acc_raw = [PNone, PInt 4096, PInt 0], gyro_raw = [PInt 0, PInt 0, PInt 0]\<rparr>"
        Map.empty "[None, Some 1, Some 0]" "[Some 0, Some 0, Some 0]" FingerWindow_init]
      add_sample_invalid_noop [of "[Some 4, Some 5, Some 6]" "FingerWindow_init ''Palm''"
        "''Right''" "[Some 1, None, Some 3]"]
      t1 t2
    by (simp add: Let_def acc_key_def gyro_key_def FingerWindow_init_def deque_append_def)
qed

section \<open>Properties of live plotting\<close>

text \<open>
  Claim C10. \<open>LivePlotter.add_data\<close> returns at once on a frame whose values are all
  equal to zero, in particular on a frame of 36 zeros, which has the valid length: the
  plotter state, with every buffer and counter, is unchanged and no redraw runs.
\<close>

theorem all_zero_frame_discarded:
  "(list_all py_eq_zero frame \<longrightarrow> add_data sf s hand frame = (s, Returned False))
   \<and> (length frame = 36 \<and> (\<forall>v \<in> set frame. v = PInt 0) \<longrightarrow>
        add_data sf s hand frame = (s, Returned False))
   \<and> add_data sf s hand (replicate 36 (PInt 0)) = (s, Returned False)"
proof -
  have a: "add_data sf s hand fr = (s, Returned False)" if "list_all py_eq_zero fr" for fr
    using that by (simp add: add_data_def)
  have b: "list_all py_eq_zero frame" if "\<forall>v \<in> set frame. v = PInt 0"
    using that by (auto simp: list_all_iff py_eq_zero_def)
  have c: "list_all py_eq_zero (replicate 36 (PInt 0))"
    by (simp add: list_all_iff py_eq_zero_def)
  have d: "add_data sf s hand (replicate 36 (PInt 0)) = (s, Returned False)"
    using c by (rule a)
  from a b d show ?thesis by blast
qed

theorem all_zero_frame_discarded_witness:
  "length (replicate 36 (PInt 0)) = 36
   \<and> set (replicate 36 (PInt 0)) = {PInt 0}
   \<and> list_all py_eq_zero (replicate 36 (PInt 0))
   \<and> add_data Map.empty (start LivePlotter_init) ''Left'' (replicate 36 (PInt 0))
       = (start LivePlotter_init, Returned False)"
  using all_zero_frame_discarded [of "replicate 36 (PInt 0)" Map.empty
      "start LivePlotter_init" "''Left''"]
  by (simp add: list_all_iff py_eq_zero_def)

section \<open>Properties of the comparison renderer\<close>

lemma select_columns_abort:
  "isl (select_columns columns (start_idx, end_idx)) \<longleftrightarrow>
     start_idx < 1 \<or> end_idx > int (length columns) \<or> start_idx > end_idx"
  by (cases "columns = []") (auto simp: select_columns_def)

lemma select_columns_ok:
  assumes "\<not> (start_idx < 1 \<or> end_idx > int (length columns) \<or> start_idx > end_idx)"
  shows "select_columns columns (start_idx, end_idx) =
           Inr (take (nat (end_idx - start_idx + 1)) (drop (nat (start_idx - 1)) columns))"
proof -
  have ne: "columns \<noteq> []" using assms by auto
  have "py_slice columns (start_idx - 1) end_idx =
          take (nat (end_idx - start_idx + 1)) (drop (nat (start_idx - 1)) columns)"
    using assms by (simp add: py_slice_def Let_def min_def algebra_simps)
  then show ?thesis using assms ne by (simp add: select_columns_def)
qed

text \<open>
  Claim C9. For a column range \<open>(start, end)\<close> both renderers print an error and return
  without plotting exactly when \<open>start < 1\<close>, or \<open>end\<close> exceeds the number of
  available columns, or \<open>start > end\<close> (the four-file renderer given its four files).
  Otherwise they select the columns at the 1-based positions \<open>start\<close> to \<open>end\<close>:
  \<open>end - start + 1\<close> columns, the \<open>j\<close>-th of them being column \<open>start - 1 + j\<close> of
  the list. With at least one available column the abort is the invalid-range one; with
  none, where every range is outside, it is reported as the absence of columns.
\<close>

theorem column_range_check:
  "(isl (plot_2way_comparison columns (start_idx, end_idx)) \<longleftrightarrow>
      start_idx < 1 \<or> end_idx > int (length columns) \<or> start_idx > end_idx)
   \<and> (length json_files = 4 \<longrightarrow>
        (isl (plot_4way_comparison json_files columns (start_idx, end_idx)) \<longleftrightarrow>
           start_idx < 1 \<or> end_idx > int (length columns) \<or> start_idx > end_idx))
   \<and> (\<not> (start_idx < 1 \<or> end_idx > int (length columns) \<or> start_idx > end_idx) \<longrightarrow>
        (let selected = take (nat (end_idx - start_idx + 1)) (drop (nat (start_idx - 1)) columns)
         in plot_2way_comparison columns (start_idx, end_idx) = Inr selected
          \<and> (length json_files = 4 \<longrightarrow>
               plot_4way_comparison json_files columns (start_idx, end_idx) = Inr selected)
          \<and> int (length selected) = end_idx - start_idx + 1
          \<and> (\<forall>j < length selected. selected ! j = columns ! (nat (start_idx - 1) + j))))
   \<and> (columns \<noteq> [] \<and> (start_idx < 1 \<or> end_idx > int (length columns) \<or> start_idx > end_idx)
        \<longrightarrow> plot_2way_comparison columns (start_idx, end_idx) = Inl InvalidRange
          \<and> (length json_files = 4 \<longrightarrow>
               plot_4way_comparison json_files columns (start_idx, end_idx) = Inl InvalidRange))"
proof (intro conjI impI)
  show "isl (plot_2way_comparison columns (start_idx, end_idx)) \<longleftrightarrow>
      start_idx < 1 \<or> end_idx > int (length columns) \<or> start_idx > end_idx"
    by (simp add: plot_2way_comparison_def select_columns_abort)
next
  assume "length json_files = 4"
  then show "isl (plot_4way_comparison json_files columns (start_idx, end_idx)) \<longleftrightarrow>
           start_idx < 1 \<or> end_idx > int (length columns) \<or> start_idx > end_idx"
    by (simp add: plot_4way_comparison_def select_columns_abort)
next
  assume ok: "\<not> (start_idx < 1 \<or> end_idx > int (length columns) \<or> start_idx > end_idx)"
  have len: "int (length (take (nat (end_idx - start_idx + 1))
                      (drop (nat (start_idx - 1)) columns))) = end_idx - start_idx + 1"
    using ok by (simp add: min_def) linarith
  have nth: "\<forall>j < length (take (nat (end_idx - start_idx + 1))
                      (drop (nat (start_idx - 1)) columns)).
               take (nat (end_idx - start_idx + 1)) (drop (nat (start_idx - 1)) columns) ! j
                 = columns ! (nat (start_idx - 1) + j)"
  proof -
    have le: "nat (start_idx - 1) \<le> length columns" using ok by linarith
    show ?thesis by (simp add: le)
  qed
  show "let selected = take (nat (end_idx - start_idx + 1)) (drop (nat (start_idx - 1)) columns)
         in plot_2way_comparison columns (start_idx, end_idx) = Inr selected
          \<and> (length json_files = 4 \<longrightarrow>
               plot_4way_comparison json_files columns (start_idx, end_idx) = Inr selected)
          \<and> int (length selected) = end_idx - start_idx + 1
          \<and> (\<forall>j < length selected. selected ! j = columns ! (nat (start_idx - 1) + j))"
    unfolding Let_def
    using select_columns_ok [OF ok] len nth
    by (simp add: plot_2way_comparison_def plot_4way_comparison_def)
next
  assume "columns \<noteq> [] \<and> (start_idx < 1 \<or> end_idx > int (length columns) \<or> start_idx > end_idx)"
  then show "plot_2way_comparison columns (start_idx, end_idx) = Inl InvalidRange"
    by (auto simp: plot_2way_comparison_def select_columns_def)
next
  assume "columns \<noteq> [] \<and> (start_idx < 1 \<or> end_idx > int (length columns) \<or> start_idx > end_idx)"
    and "length json_files = 4"
  then show "plot_4way_comparison json_files columns (start_idx, end_idx) = Inl InvalidRange"
    by (auto simp: plot_4way_comparison_def select_columns_def)
qed

theorem column_range_check_witness:
  "\<not> ((2::int) < 1 \<or> (3::int) > int (length [''a'', ''b'', ''c'', ''d'']) \<or> (2::int) > 3)
   \<and> plot_2way_comparison [''a'', ''b'', ''c'', ''d''] (2, 3) = Inr [''b'', ''c'']
   \<and> length [''f1'', ''f2'', ''f3'', ''f4''] = 4
   \<and> plot_4way_comparison [''f1'', ''f2'', ''f3'', ''f4''] [''a'', ''b'', ''c'', ''d''] (2, 3)
       = Inr [''b'', ''c'']
   \<and> [''a'', ''b''] \<noteq> [] \<and> (3::int) > int (length [''a'', ''b''])
   \<and> plot_2way_comparison [''a'', ''b''] (1, 3) = Inl InvalidRange
   \<and> plot_4way_comparison [''f1'', ''f2'', ''f3'', ''f4''] [''a'', ''b''] (1, 3)
       = Inl InvalidRange
   \<and> isl (plot_2way_comparison [] (1, 3))"
  using column_range_check [of "[''a'', ''b'', ''c'', ''d'']" 2 3 "[''f1'', ''f2'', ''f3'', ''f4'']"]
    column_range_check [of "[''a'', ''b'']" 1 3 "[''f1'', ''f2'', ''f3'', ''f4'']"]
    column_range_check [of "[]" 1 3 "[''f1'', ''f2'', ''f3'', ''f4'']"]
  by (simp add: Let_def)


section \<open>Properties of the series loader\<close>

lemma convert_one_frame:
  assumes "i < 6"
  shows "foldl (convert_finger sf frame) cd (enumerate 0 FINGER_NAMES) (FINGER_NAMES ! i) =
           \<lparr>acc = acc (cd (FINGER_NAMES ! i)) @ [acc_triple_of sf i frame],
            gyro = gyro (cd (FINGER_NAMES ! i)) @ [gyro_triple_of sf i frame]\<rparr>"
  using assms
  by (cases i rule: lt6_cases)
     (simp_all add: FINGER_enum convert_finger_def FINGER_NAMES_def
        acc_triple_of_def gyro_triple_of_def)

lemma convert_frames_gen:
  assumes "i < 6"
  shows "foldl (\<lambda>converted_data frame.
              if length frame \<noteq> 36 then converted_data
              else foldl (convert_finger sf frame) converted_data (enumerate 0 FINGER_NAMES))
           cd raw_frames (FINGER_NAMES ! i) =
         \<lparr>acc = acc (cd (FINGER_NAMES ! i)) @
                  map (acc_triple_of sf i) (filter (\<lambda>frame. length frame = 36) raw_frames),
          gyro = gyro (cd (FINGER_NAMES ! i)) @
                  map (gyro_triple_of sf i) (filter (\<lambda>frame. length frame = 36) raw_frames)\<rparr>"
proof (induction raw_frames arbitrary: cd)
  case Nil
  then show ?case by simp
next
  case (Cons frame raw_frames)
  show ?case
    by (simp add: Cons.IH convert_one_frame [OF assms])
qed

lemma convert_frame_data_series:
  assumes "i < 6"
  shows "convert_frame_data sf raw_frames (FINGER_NAMES ! i) =
         \<lparr>acc = map (acc_triple_of sf i) (filter (\<lambda>frame. length frame = 36) raw_frames),
          gyro = map (gyro_triple_of sf i) (filter (\<lambda>frame. length frame = 36) raw_frames)\<rparr>"
  unfolding convert_frame_data_def by (simp add: convert_frames_gen [OF assms])

lemma save_then_load:
  assumes "save_gesture isalnum dp fs timestamp iso_now left_data right_data ldev rdev
             custom_name
             = (filepath, dp1, fs1)"
  shows "\<exists>md. load_gesture_data fs1 filepath = Inr (md, left_data, right_data)"
proof -
  have "fs1 filepath \<noteq> None
      \<and> leftHandDataList (gd_gesture_recording (the (fs1 filepath))) = [left_data]
      \<and> rightHandDataList (gd_gesture_recording (the (fs1 filepath))) = [right_data]"
    using assms by (auto simp: save_gesture_def Let_def)
  then show ?thesis by (auto simp: load_gesture_data_def Let_def)
qed

text \<open>
  Claim C4. Whatever the two hand streams are, loading the file that \<open>save_gesture\<close>
  wrote gives them back, and \<open>convert_frame_data\<close> turns each into six series, one per
  finger; for every finger the accelerometer series and the gyroscope series have as many
  entries as the hand stream has frames of length 36, and their entries are the converted
  triples of these frames in the order of the stream.
\<close>

theorem save_load_round_trip:
  assumes "save_gesture isalnum dp fs timestamp iso_now left_data right_data ldev rdev
             custom_name
             = (filepath, dp1, fs1)"
  shows "\<exists>md left_loaded right_loaded.
           load_gesture_data fs1 filepath = Inr (md, left_loaded, right_loaded)
         \<and> left_loaded = left_data \<and> right_loaded = right_data
         \<and> (\<forall>i < 6.
              length (acc (convert_frame_data sf left_loaded (FINGER_NAMES ! i)))
                = length (filter (\<lambda>frame. length frame = 36) left_data)
            \<and> length (gyro (convert_frame_data sf left_loaded (FINGER_NAMES ! i)))
                = length (filter (\<lambda>frame. length frame = 36) left_data)
            \<and> acc (convert_frame_data sf left_loaded (FINGER_NAMES ! i))
                = map (acc_triple_of sf i) (filter (\<lambda>frame. length frame = 36) left_data)
            \<and> gyro (convert_frame_data sf left_loaded (FINGER_NAMES ! i))
                = map (gyro_triple_of sf i) (filter (\<lambda>frame. length frame = 36) left_data)
            \<and> length (acc (convert_frame_data sf right_loaded (FINGER_NAMES ! i)))
                = length (filter (\<lambda>frame. length frame = 36) right_data)
            \<and> length (gyro (convert_frame_data sf right_loaded (FINGER_NAMES ! i)))
                = length (filter (\<lambda>frame. length frame = 36) right_data)
            \<and> acc (convert_frame_data sf right_loaded (FINGER_NAMES ! i))
                = map (acc_triple_of sf i) (filter (\<lambda>frame. length frame = 36) right_data)
            \<and> gyro (convert_frame_data sf right_loaded (FINGER_NAMES ! i))
                = map (gyro_triple_of sf i) (filter (\<lambda>frame. length frame = 36) right_data))"
proof -
  from save_then_load [OF assms] obtain md where
    l: "load_gesture_data fs1 filepath = Inr (md, left_data, right_data)" ..
  have "\<forall>i < 6.
              length (acc (convert_frame_data sf left_data (FINGER_NAMES ! i)))
                = length (filter (\<lambda>frame. length frame = 36) left_data)
            \<and> length (gyro (convert_frame_data sf left_data (FINGER_NAMES ! i)))
                = length (filter (\<lambda>frame. length frame = 36) left_data)
            \<and> acc (convert_frame_data sf left_data (FINGER_NAMES ! i))
                = map (acc_triple_of sf i) (filter (\<lambda>frame. length frame = 36) left_data)
            \<and> gyro (convert_frame_data sf left_data (FINGER_NAMES ! i))
                = map (gyro_triple_of sf i) (filter (\<lambda>frame. length frame = 36) left_data)
            \<and> length (acc (convert_frame_data sf right_data (FINGER_NAMES ! i)))
                = length (filter (\<lambda>frame. length frame = 36) right_data)
            \<and> length (gyro (convert_frame_data sf right_data (FINGER_NAMES ! i)))
                = length (filter (\<lambda>frame. length frame = 36) right_data)
            \<and> acc (convert_frame_data sf right_data (FINGER_NAMES ! i))
                = map (acc_triple_of sf i) (filter (\<lambda>frame. length frame = 36) right_data)
            \<and> gyro (convert_frame_data sf right_data (FINGER_NAMES ! i))
                = map (gyro_triple_of sf i) (filter (\<lambda>frame. length frame = 36) right_data)"
    by (simp add: convert_frame_data_series)
  with l show ?thesis by blast
qed


theorem save_load_round_trip_witness:
  "save_gesture isalnum_ascii
      \<lparr>session_name = ''s1'', user_name = ''u'', gesture_count = 0, base_folder = ''data'',
       user_folder = ''data/u'', session_folder = ''data/u/s1''\<rparr>
      Map.empty ''20240101_120000'' ''2024-01-01T12:00:00''
      [map PInt [0 ..< 36], [PInt 1, PInt 2], replicate 36 (PInt 40000)] []
      ''AA:01'' ''AA:02'' None
    = (''data/u/s1/gesture_20240101_120000.json'',
       \<lparr>session_name = ''s1'', user_name = ''u'', gesture_count = 1, base_folder = ''data'',
        user_folder = ''data/u'', session_folder = ''data/u/s1''\<rparr>,
       [''data/u/s1/gesture_20240101_120000.json'' \<mapsto>
          \<lparr>gd_session_name = ''s1'', gd_user_name = ''u'', gd_user_id = ''u'',
           gd_timestamp = ''2024-01-01T12:00:00'', gd_gesture_number = 1,
           gd_custom_name = None,
           gd_device_name = \<lparr>leftHandDevice = ''AA:01'', rightHandDevice = ''AA:02''\<rparr>,
           gd_gesture_recording =
             \<lparr>leftHandDataList =
                [ [map PInt [0 ..< 36], [PInt 1, PInt 2], replicate 36 (PInt 40000)] ],
              rightHandDataList = [ [] ]\<rparr>\<rparr>])
   \<and> (\<exists>md left_loaded right_loaded.
         load_gesture_data
           [''data/u/s1/gesture_20240101_120000.json'' \<mapsto>
              \<lparr>gd_session_name = ''s1'', gd_user_name = ''u'', gd_user_id = ''u'',
               gd_timestamp = ''2024-01-01T12:00:00'', gd_gesture_number = 1,
               gd_custom_name = None,
               gd_device_name = \<lparr>leftHandDevice = ''AA:01'', rightHandDevice = ''AA:02''\<rparr>,
               gd_gesture_recording =
                 \<lparr>leftHandDataList =
                    [ [map PInt [0 ..< 36], [PInt 1, PInt 2], replicate 36 (PInt 40000)] ],
                  rightHandDataList = [ [] ]\<rparr>\<rparr>]
           ''data/u/s1/gesture_20240101_120000.json''
           = Inr (md, left_loaded, right_loaded)
       \<and> acc (convert_frame_data Map.empty left_loaded ''Thumb'')
           = [ [Some (24 / 4096), Some (25 / 4096), Some (26 / 4096)],
              [Some (- 25536 / 4096), Some (- 25536 / 4096), Some (- 25536 / 4096)] ]
       \<and> length (gyro (convert_frame_data Map.empty left_loaded ''Thumb'')) = 2
       \<and> length (acc (convert_frame_data Map.empty right_loaded ''Thumb'')) = 0)"
  (is "?save = (?path, ?dp1, ?fs1) \<and> ?concl")
proof -
  let ?L = "[map PInt [0 ..< 36], [PInt 1, PInt 2], replicate 36 (PInt 40000)]"
  let ?R = "[] :: pyval list list"
  have s: "?save = (?path, ?dp1, ?fs1)"
    by (simp add: save_gesture_def Let_def path_join_def sanitize_name_def isalnum_ascii_def)
  have four: "(4::nat) < 6" by simp
  have thumb: "FINGER_NAMES ! 4 = ''Thumb''" by (simp add: FINGER_NAMES_def)
  have valid: "filter (\<lambda>frame. length frame = 36) ?L
                 = [map PInt [0 ..< 36], replicate 36 (PInt 40000)]" by simp
  have a1: "acc_triple_of Map.empty 4 (map PInt [0 ..< 36])
              = [Some (24 / 4096), Some (25 / 4096), Some (26 / 4096)]"
    by (simp add: acc_triple_of_def transform_value_def py_float_int_exact scale_value_def)
  have a2: "acc_triple_of Map.empty 4 (replicate 36 (PInt 40000))
              = [Some (- 25536 / 4096), Some (- 25536 / 4096), Some (- 25536 / 4096)]"
    by (simp add: acc_triple_of_def transform_value_def py_float_int_exact scale_value_def)
  from save_load_round_trip [OF s, of Map.empty] obtain md left_loaded right_loaded where
    l: "load_gesture_data ?fs1 ?path = Inr (md, left_loaded, right_loaded)"
    and "left_loaded = ?L" and "right_loaded = ?R"
    and all: "\<forall>i < 6.
              length (acc (convert_frame_data Map.empty left_loaded (FINGER_NAMES ! i)))
                = length (filter (\<lambda>frame. length frame = 36) ?L)
            \<and> length (gyro (convert_frame_data Map.empty left_loaded (FINGER_NAMES ! i)))
                = length (filter (\<lambda>frame. length frame = 36) ?L)
            \<and> acc (convert_frame_data Map.empty left_loaded (FINGER_NAMES ! i))
                = map (acc_triple_of Map.empty i) (filter (\<lambda>frame. length frame = 36) ?L)
            \<and> gyro (convert_frame_data Map.empty left_loaded (FINGER_NAMES ! i))
                = map (gyro_triple_of Map.empty i) (filter (\<lambda>frame. length frame = 36) ?L)
            \<and> length (acc (convert_frame_data Map.empty right_loaded (FINGER_NAMES ! i)))
                = length (filter (\<lambda>frame. length frame = 36) ?R)
            \<and> length (gyro (convert_frame_data Map.empty right_loaded (FINGER_NAMES ! i)))
                = length (filter (\<lambda>frame. length frame = 36) ?R)
            \<and> acc (convert_frame_data Map.empty right_loaded (FINGER_NAMES ! i))
                = map (acc_triple_of Map.empty i) (filter (\<lambda>frame. length frame = 36) ?R)
            \<and> gyro (convert_frame_data Map.empty right_loaded (FINGER_NAMES ! i))
                = map (gyro_triple_of Map.empty i) (filter (\<lambda>frame. length frame = 36) ?R)"
    by (elim exE conjE) (rule that)
  note at4 = all [rule_format, OF four, unfolded thumb valid]
  have "acc (convert_frame_data Map.empty left_loaded ''Thumb'')
          = map (acc_triple_of Map.empty 4) [map PInt [0 ..< 36], replicate 36 (PInt 40000)]"
    using at4 by (elim conjE)
  then have c1: "acc (convert_frame_data Map.empty left_loaded ''Thumb'')
           = [ [Some (24 / 4096), Some (25 / 4096), Some (26 / 4096)],
              [Some (- 25536 / 4096), Some (- 25536 / 4096), Some (- 25536 / 4096)] ]"
    by (simp only: list.map a1 a2)
  have "length (gyro (convert_frame_data Map.empty left_loaded ''Thumb''))
          = length [map PInt [0 ..< 36], replicate 36 (PInt 40000)]"
    using at4 by (elim conjE)
  then have c2: "length (gyro (convert_frame_data Map.empty left_loaded ''Thumb'')) = 2"
    by simp
  have "length (acc (convert_frame_data Map.empty right_loaded ''Thumb''))
          = length (filter (\<lambda>frame. length frame = 36) ?R)"
    using at4 by (elim conjE)
  then have c3: "length (acc (convert_frame_data Map.empty right_loaded ''Thumb'')) = 0"
    by simp
  note c1 c2 c3
  with l have ?concl by (intro exI [of _ md] exI [of _ left_loaded] exI [of _ right_loaded] conjI)
  with s show ?thesis by (intro conjI)
qed

section \<open>The redraw cadence of live plotting\<close>

lemma is_uint16D: "is_uint16 v \<Longrightarrow> \<exists>r. v = PInt r \<and> 0 \<le> r \<and> r \<le> 65535"
  by (cases v) (simp_all add: is_uint16_def)

lemma live_transform_uint16:
  assumes "0 \<le> r" "r \<le> 65535"
  shows "LivePlotter_transform_value sf (PInt r) c = Inr (Some (scale_value (real_of_int r) c))"
  by (simp add: LivePlotter_transform_value_def py_float_in_range [OF assms])

lemma transform_all_uint16:
  assumes "list_all is_uint16 vs"
  shows "\<exists>xs. transform_all sf vs c = Inr xs \<and> all_not_None xs"
  using assms
proof (induction vs)
  case Nil
  then show ?case by (simp add: all_not_None_def)
next
  case (Cons v vs)
  from Cons.prems have "is_uint16 v" by simp
  from is_uint16D [OF this] obtain r where v: "v = PInt r" "0 \<le> r" "r \<le> 65535" by blast
  from Cons.prems have "list_all is_uint16 vs" by simp
  with Cons.IH obtain xs where xs: "transform_all sf vs c = Inr xs" "all_not_None xs" by blast
  show ?case
    using v xs by (simp add: live_transform_uint16 all_not_None_def)
qed

lemma process_fingers_other:
  "finger \<notin> set fingers \<Longrightarrow> fst (process_fingers sf fws hand fd fingers) finger = fws finger"
proof (induction fingers arbitrary: fws)
  case Nil
  then show ?case by simp
next
  case (Cons f fingers)
  then show ?case
    by (auto split: option.splits sum.splits)
qed

lemma process_fingers_uint16:
  assumes "\<forall>(finger, raw) \<in> set fd.
             list_all is_uint16 (acc_raw raw) \<and> list_all is_uint16 (gyro_raw raw)"
  shows "snd (process_fingers sf fws hand fd fingers) = None"
proof (induction fingers arbitrary: fws)
  case Nil
  then show ?case by simp
next
  case (Cons f fingers)
  show ?case
  proof (cases "map_of fd f")
    case None
    then show ?thesis by (simp add: Cons.IH)
  next
    case (Some raw)
    then have "(f, raw) \<in> set fd" by (rule map_of_SomeD)
    with assms have u: "list_all is_uint16 (acc_raw raw)" "list_all is_uint16 (gyro_raw raw)"
      by auto
    from transform_all_uint16 [OF u(1)] obtain a where
      a: "transform_all sf (acc_raw raw) True = Inr a" by blast
    from transform_all_uint16 [OF u(2)] obtain g where
      g: "transform_all sf (gyro_raw raw) False = Inr g" by blast
    show ?thesis by (simp add: Some a g Cons.IH)
  qed
qed

lemma uint16_frame_nth:
  assumes "uint16_frame frame" and "j < 36"
  shows "is_uint16 (frame ! j)"
  using assms by (simp add: uint16_frame_def list_all_length)

lemma parse_uint16:
  assumes "uint16_frame frame"
  shows "\<exists>raw rest. parse_frame_data frame = Some ((''IndexFinger'', raw) # rest)
           \<and> (\<forall>(finger, r) \<in> set ((''IndexFinger'', raw) # rest).
                 list_all is_uint16 (acc_raw r) \<and> list_all is_uint16 (gyro_raw r))"
proof -
  have len: "length frame = 36" using assms by (simp add: uint16_frame_def)
  note n = uint16_frame_nth [OF assms]
  show ?thesis
    using len by (simp add: parse_frame_data_def FINGER_enum n)
qed

lemma log_first_frame_uint16:
  assumes "uint16_frame frame"
  shows "\<exists>s1. log_first_frame sf s hand frame = (s1, None)
           \<and> finger_windows s1 = finger_windows s \<and> is_running s1 = is_running s"
proof -
  have "is_uint16 (frame ! 0)" "is_uint16 (frame ! 1)"
    using uint16_frame_nth [OF assms] by simp_all
  then obtain r0 r1 where "frame ! 0 = PInt r0" "0 \<le> r0" "r0 \<le> 65535"
    "frame ! 1 = PInt r1" "0 \<le> r1" "r1 \<le> 65535"
    using is_uint16D by blast
  then show ?thesis
    by (simp add: log_first_frame_def live_transform_uint16 Let_def)
qed

lemma add_data_uint16:
  assumes u: "uint16_frame frame" and nz: "\<not> list_all py_eq_zero frame"
  shows "\<exists>a g. finger_windows (fst (add_data sf s hand frame)) ''IndexFinger''
                 = FingerWindow_add_data (finger_windows s ''IndexFinger'') hand a g
             \<and> all_not_None a \<and> all_not_None g
             \<and> is_running (fst (add_data sf s hand frame)) = is_running s
             \<and> snd (add_data sf s hand frame) =
                 Returned (is_running s \<and>
                   (length (data (finger_windows (fst (add_data sf s hand frame))
                                    ''IndexFinger'') left_acc) +
                    length (data (finger_windows (fst (add_data sf s hand frame))
                                    ''IndexFinger'') right_acc)) mod 10 = 0)"
proof -
  have len: "length frame = 36" and ne: "frame \<noteq> []"
    using u by (auto simp: uint16_frame_def)
  from log_first_frame_uint16 [OF u] obtain s1 where
    lg: "log_first_frame sf s hand frame = (s1, None)"
    and fw1: "finger_windows s1 = finger_windows s" and run1: "is_running s1 = is_running s"
    by blast
  from parse_uint16 [OF u] obtain raw rest where
    p: "parse_frame_data frame = Some ((''IndexFinger'', raw) # rest)"
    and all: "\<forall>(finger, r) \<in> set ((''IndexFinger'', raw) # rest).
                 list_all is_uint16 (acc_raw r) \<and> list_all is_uint16 (gyro_raw r)"
    by blast
  from all have ur: "list_all is_uint16 (acc_raw raw)" "list_all is_uint16 (gyro_raw raw)"
    by auto
  from transform_all_uint16 [OF ur(1)] obtain a where
    a: "transform_all sf (acc_raw raw) True = Inr a" "all_not_None a" by blast
  from transform_all_uint16 [OF ur(2)] obtain g where
    g: "transform_all sf (gyro_raw raw) False = Inr g" "all_not_None g" by blast
  define fd where "fd = (''IndexFinger'', raw) # rest"
  define others where
    "others = [''MiddleFinger'', ''RingFinger'', ''LittleFinger'', ''Thumb'', ''Palm'']"
  define fws0 where "fws0 = (finger_windows s)(''IndexFinger'' :=
      FingerWindow_add_data (finger_windows s ''IndexFinger'') hand a g)"
  have names: "FINGER_NAMES = ''IndexFinger'' # others"
    by (simp add: FINGER_NAMES_def others_def)
  have step: "process_fingers sf (finger_windows s) hand fd FINGER_NAMES
                = process_fingers sf fws0 hand fd others"
    by (simp add: names fd_def a g fws0_def)
  have notin: "''IndexFinger'' \<notin> set others" by (simp add: others_def)
  have idx: "fst (process_fingers sf fws0 hand fd others) ''IndexFinger''
               = FingerWindow_add_data (finger_windows s ''IndexFinger'') hand a g"
    using process_fingers_other [OF notin, of sf fws0 hand fd] by (simp add: fws0_def)
  have none: "snd (process_fingers sf fws0 hand fd others) = None"
    using all unfolding fd_def [symmetric] by (rule process_fingers_uint16)
  obtain fws where pf: "process_fingers sf (finger_windows s) hand fd FINGER_NAMES = (fws, None)"
    and fwsI: "fws ''IndexFinger''
                 = FingerWindow_add_data (finger_windows s ''IndexFinger'') hand a g"
    using step idx none by (cases "process_fingers sf fws0 hand fd others") auto
  have res: "add_data sf s hand frame =
      (s1\<lparr>finger_windows := fws\<rparr>,
       Returned (is_running s \<and>
                 (length (data (fws ''IndexFinger'') left_acc) +
                  length (data (fws ''IndexFinger'') right_acc)) mod 10 = 0))"
    using ne nz len lg p pf fw1 run1
    by (simp add: add_data_def fd_def Let_def)
  show ?thesis
    using a(2) g(2) fwsI run1 by (intro exI [of _ a] exI [of _ g]) (simp add: res)
qed


lemma deque_append_length:
  "length xs \<le> m \<Longrightarrow> length (deque_append m xs x) = min (length xs + 1) m"
  by (cases xs) (auto simp: deque_append_def Let_def)

lemma add_frames_snoc:
  "add_frames sf s hand (fs @ [f]) = fst (add_data sf (add_frames sf s hand fs) hand f)"
  by (simp add: add_frames_def)

lemma left_frame_counts:
  assumes u: "uint16_frame frame" and nz: "\<not> list_all py_eq_zero frame"
    and le: "length (data (finger_windows s ''IndexFinger'') left_acc) \<le> 500"
  shows "length (data (finger_windows (fst (add_data sf s ''Left'' frame)) ''IndexFinger'')
                   left_acc)
           = min (length (data (finger_windows s ''IndexFinger'') left_acc) + 1) 500
       \<and> data (finger_windows (fst (add_data sf s ''Left'' frame)) ''IndexFinger'') right_acc
           = data (finger_windows s ''IndexFinger'') right_acc"
proof -
  from add_data_uint16 [OF u nz, of sf s "''Left''"] obtain a g where
    fw: "finger_windows (fst (add_data sf s ''Left'' frame)) ''IndexFinger''
           = FingerWindow_add_data (finger_windows s ''IndexFinger'') ''Left'' a g"
    and a: "all_not_None a"
    by blast
  show ?thesis
    using a le
    by (simp add: fw add_data_stream acc_key_def gyro_key_def data_maxlen_def
        deque_append_length)
qed

lemma add_frames_left_counts:
  assumes "\<forall>f \<in> set fs. uint16_frame f \<and> \<not> list_all py_eq_zero f"
    and "data (finger_windows s ''IndexFinger'') left_acc = []"
  shows "length (data (finger_windows (add_frames sf s ''Left'' fs) ''IndexFinger'') left_acc)
           = min (length fs) 500
       \<and> data (finger_windows (add_frames sf s ''Left'' fs) ''IndexFinger'') right_acc
           = data (finger_windows s ''IndexFinger'') right_acc
       \<and> is_running (add_frames sf s ''Left'' fs) = is_running s"
  using assms(1)
proof (induction fs rule: rev_induct)
  case Nil
  then show ?case using assms(2) by (simp add: add_frames_def)
next
  case (snoc f fs)
  let ?s = "add_frames sf s ''Left'' fs"
  from snoc.prems have f: "uint16_frame f" "\<not> list_all py_eq_zero f"
    and rest: "\<forall>f \<in> set fs. uint16_frame f \<and> \<not> list_all py_eq_zero f" by auto
  note ih = snoc.IH [OF rest]
  from ih have le: "length (data (finger_windows ?s ''IndexFinger'') left_acc) \<le> 500" by simp
  from add_data_uint16 [OF f, of sf ?s "''Left''"]
  have run: "is_running (fst (add_data sf ?s ''Left'' f)) = is_running ?s" by blast
  show ?case
    using left_frame_counts [OF f le, of sf] ih run
    by (simp add: add_frames_snoc)
qed

lemma redraw_trigger_left:
  assumes "\<forall>f \<in> set (frames_in @ [frame]). uint16_frame f \<and> \<not> list_all py_eq_zero f"
  shows "snd (add_data sf (add_frames sf (start s0) ''Left'' frames_in) ''Left'' frame)
           = Returned (min (length frames_in + 1) 500 mod 10 = 0)"
proof -
  let ?s = "add_frames sf (start s0) ''Left'' frames_in"
  from assms have f: "uint16_frame frame" "\<not> list_all py_eq_zero frame"
    and rest: "\<forall>f \<in> set frames_in. uint16_frame f \<and> \<not> list_all py_eq_zero f" by auto
  have init: "data (finger_windows (start s0) ''IndexFinger'') left_acc = []"
    "data (finger_windows (start s0) ''IndexFinger'') right_acc = []"
    "is_running (start s0)"
    by (simp_all add: start_def FingerWindow_clear_def)
  note c = add_frames_left_counts [OF rest init(1), of sf]
  from c have le: "length (data (finger_windows ?s ''IndexFinger'') left_acc) \<le> 500" by simp
  note n = left_frame_counts [OF f le, of sf]
  from add_data_uint16 [OF f, of sf ?s "''Left''"]
  have e: "snd (add_data sf ?s ''Left'' frame) =
          Returned (is_running ?s \<and>
            (length (data (finger_windows (fst (add_data sf ?s ''Left'' frame))
                             ''IndexFinger'') left_acc) +
             length (data (finger_windows (fst (add_data sf ?s ''Left'' frame))
                             ''IndexFinger'') right_acc)) mod 10 = 0)"
    by blast
  have L: "length (data (finger_windows (fst (add_data sf ?s ''Left'' frame))
                           ''IndexFinger'') left_acc) = min (length frames_in + 1) 500"
    using n c by (simp add: min_def)
  have R: "length (data (finger_windows (fst (add_data sf ?s ''Left'' frame))
                           ''IndexFinger'') right_acc) = 0"
    using n c init by simp
  have run: "is_running ?s" using c init by simp
  show ?thesis unfolding e L R using run by simp
qed

text \<open>
  Claim C8 says that a running plotter redraws exactly on every 10th accepted sample.
  \<open>add_data\<close> tests the sum of the two buffer lengths of the IndexFinger window, and a
  buffer stops growing at 500 entries. By \<open>redraw_trigger_left\<close> the call for frame
  \<open>n + 1\<close> of the left hand redraws exactly when \<open>min (n + 1) 500\<close> is a multiple of
  10: on frames 10, 20, ... up to 500, and then on every frame. Evaluated after
  \<open>start\<close>: frames 9 and 10 behave as claimed (no redraw, redraw), while frames 501,
  502 and 503 each end with a redraw.
\<close>

theorem redraw_on_every_frame_after_500:
  "snd (add_data Map.empty
          (add_frames Map.empty (start LivePlotter_init) ''Left''
             (replicate 500 (replicate 36 (PInt 1))))
          ''Left'' (replicate 36 (PInt 1))) = Returned True
   \<and> snd (add_data Map.empty
          (add_frames Map.empty (start LivePlotter_init) ''Left''
             (replicate 501 (replicate 36 (PInt 1))))
          ''Left'' (replicate 36 (PInt 1))) = Returned True
   \<and> snd (add_data Map.empty
          (add_frames Map.empty (start LivePlotter_init) ''Left''
             (replicate 502 (replicate 36 (PInt 1))))
          ''Left'' (replicate 36 (PInt 1))) = Returned True
   \<and> snd (add_data Map.empty
          (add_frames Map.empty (start LivePlotter_init) ''Left''
             (replicate 8 (replicate 36 (PInt 1))))
          ''Left'' (replicate 36 (PInt 1))) = Returned False
   \<and> snd (add_data Map.empty
          (add_frames Map.empty (start LivePlotter_init) ''Left''
             (replicate 9 (replicate 36 (PInt 1))))
          ''Left'' (replicate 36 (PInt 1))) = Returned True"
proof -
  have v: "uint16_frame (replicate 36 (PInt 1)) \<and> \<not> list_all py_eq_zero (replicate 36 (PInt 1))"
    by (simp add: uint16_frame_def is_uint16_def py_eq_zero_def list_all_iff)
  have all: "\<forall>f \<in> set (replicate n (replicate 36 (PInt 1)) @ [replicate 36 (PInt 1)]).
               uint16_frame f \<and> \<not> list_all py_eq_zero f" for n
    using v by auto
  show ?thesis
    using redraw_trigger_left [OF all [of 500], of Map.empty LivePlotter_init]
      redraw_trigger_left [OF all [of 501], of Map.empty LivePlotter_init]
      redraw_trigger_left [OF all [of 502], of Map.empty LivePlotter_init]
      redraw_trigger_left [OF all [of 8], of Map.empty LivePlotter_init]
      redraw_trigger_left [OF all [of 9], of Map.empty LivePlotter_init]
    by simp
qed

end
